theory Spec2Isabelle
  imports
    Complex_Main
    "HOL-Library.Product_Lexorder"
    "HOL-Library.List_Lexorder"
    "HOL-Library.Char_ord"
    "HOL-Library.Multiset"
begin

section \<open>Values at the JavaScript/SQL boundary\<close>

text \<open>
  The persistence layer (\<^verbatim>\<open>OptionsDatabase\<close>) talks to one table,
  \<^verbatim>\<open>options_data\<close>. Times (\<^verbatim>\<open>Date.now()\<close>, the
  \<^verbatim>\<open>timestamp\<close> and \<^verbatim>\<open>expiration_date\<close> columns) are milliseconds
  since the epoch. A finite JavaScript number is the rational that its decimal notation
  denotes, which is what the driver sends to the database; SQL decimals are rationals.
  Where the code computes with doubles, the rounding of a result to a double is the
  parameter \<open>rnd\<close>: every statement about such a computation holds for every rounding.
\<close>

type_synonym time = int

text \<open>
  A field of an incoming record: missing or \<^verbatim>\<open>null\<close>, a number, or a string (the
  vendor sends prices as strings or numbers).
\<close>

datatype jsval = JNull | JNum rat | JStr string

text \<open>The result of \<^verbatim>\<open>parseFloat\<close>: a finite number or \<^verbatim>\<open>NaN\<close>.\<close>

datatype jsnum = NaN | Fin rat

text \<open>JavaScript truthiness, as the conditional operator tests it.\<close>

fun truthy :: "jsval \<Rightarrow> bool" where
  "truthy JNull = False"
| "truthy (JNum n) = (n \<noteq> 0)"
| "truthy (JStr s) = (s \<noteq> [])"

text \<open>
  \<^verbatim>\<open>parseFloat\<close> is a built-in: on a number it returns the number, on
  \<^verbatim>\<open>null\<close> it returns \<^verbatim>\<open>NaN\<close>; its reading of a string is the
  parameter \<open>pf\<close>, which gives a finite number or \<^verbatim>\<open>NaN\<close>
  (a string read as an infinity is not covered).
\<close>

fun parseFloat :: "(string \<Rightarrow> jsnum) \<Rightarrow> jsval \<Rightarrow> jsnum" where
  "parseFloat pf JNull = NaN"
| "parseFloat pf (JNum n) = Fin n"
| "parseFloat pf (JStr s) = pf s"

section \<open>The table\<close>

text \<open>
  One row of \<^verbatim>\<open>options_data\<close>, with the columns of the schema (\<open>id\<close>,
  \<open>last\<close> and \<open>open\<close> carry a suffix; \<open>created_at\<close> is never read or
  written by the code and is left out).
\<close>

record row =
  id_col :: nat
  symbol :: string
  expiration_date :: time
  strike :: jsnum
  expiration_type :: string
  ask :: "jsnum option"
  bid :: "jsnum option"
  mid :: "jsnum option"
  close :: "jsnum option"
  high :: "jsnum option"
  last_col :: "jsnum option"
  low :: "jsnum option"
  open_col :: "jsnum option"
  previous_close :: "jsnum option"
  option_type :: string
  option_symbol :: string
  timestamp :: time

text \<open>
  The database: the rows of the table and the state of the sequence behind the
  \<^verbatim>\<open>SERIAL\<close> column. A transaction that rolls back restores the rows; the
  sequence is not transactional.
\<close>

record db =
  tbl :: "row list"
  seq :: nat

definition ROLLBACK :: "db \<Rightarrow> db \<Rightarrow> db" where
  "ROLLBACK at_begin d = d\<lparr>tbl := tbl at_begin\<rparr>"

datatype db_error =
  NotNullViolation string
  | CheckViolation string
  | StringTooLong nat
  | NumericOverflow
  | SyntaxError
  | NegativeLimit

section \<open>Ingestion: \<^verbatim>\<open>insertOptionsData\<close>\<close>

text \<open>An element of \<^verbatim>\<open>optionsData\<close>, as the collector builds it.\<close>

record option_in =
  o_expiration_date :: "time option"
  o_strike :: jsval
  o_expiration_type :: "string option"
  o_ask :: jsval
  o_bid :: jsval
  o_mid :: jsval
  o_close :: jsval
  o_high :: jsval
  o_last :: jsval
  o_low :: jsval
  o_open :: jsval
  o_previous_close :: jsval
  o_option_type :: "string option"
  o_symbol :: "string option"
  o_timestamp :: "time option"

text \<open>The \<^verbatim>\<open>values\<close> array bound to the sixteen placeholders.\<close>

record vals =
  v_symbol :: "string option"
  v_expiration_date :: "time option"
  v_strike :: jsnum
  v_expiration_type :: "string option"
  v_ask :: "jsnum option"
  v_bid :: "jsnum option"
  v_mid :: "jsnum option"
  v_close :: "jsnum option"
  v_high :: "jsnum option"
  v_last :: "jsnum option"
  v_low :: "jsnum option"
  v_open :: "jsnum option"
  v_previous_close :: "jsnum option"
  v_option_type :: "string option"
  v_option_symbol :: "string option"
  v_timestamp :: "time option"

text \<open>
  \<^verbatim>\<open>option.symbol ? option.symbol.split(' ')[0] : null\<close>: the empty string is
  falsy.
\<close>

definition underlyingSymbol :: "string option \<Rightarrow> string option" where
  "underlyingSymbol s =
     (case s of
        None \<Rightarrow> None
      | Some full \<Rightarrow>
          if full = [] then None else Some (takeWhile (\<lambda>c. c \<noteq> CHR '' '') full))"

text \<open>\<^verbatim>\<open>option.ask ? parseFloat(option.ask) : null\<close>, the same for each price.\<close>

definition price :: "(string \<Rightarrow> jsnum) \<Rightarrow> jsval \<Rightarrow> jsnum option" where
  "price pf v = (if truthy v then Some (parseFloat pf v) else None)"

definition values_of :: "(string \<Rightarrow> jsnum) \<Rightarrow> option_in \<Rightarrow> vals" where
  "values_of pf opt =
     \<lparr> v_symbol = underlyingSymbol (o_symbol opt),
       v_expiration_date = o_expiration_date opt,
       v_strike = parseFloat pf (o_strike opt),
       v_expiration_type = o_expiration_type opt,
       v_ask = price pf (o_ask opt),
       v_bid = price pf (o_bid opt),
       v_mid = price pf (o_mid opt),
       v_close = price pf (o_close opt),
       v_high = price pf (o_high opt),
       v_last = price pf (o_last opt),
       v_low = price pf (o_low opt),
       v_open = price pf (o_open opt),
       v_previous_close = price pf (o_previous_close opt),
       v_option_type = o_option_type opt,
       v_option_symbol = o_symbol opt,
       v_timestamp = o_timestamp opt \<rparr>"

text \<open>
  The column types of the schema. A \<^verbatim>\<open>DECIMAL(10,2)\<close> column rounds a value to
  two decimals, halves away from zero, and rejects it when the rounded value has more than
  eight digits before the point; \<^verbatim>\<open>NaN\<close> is stored as it is. A
  \<^verbatim>\<open>VARCHAR(n)\<close> column rejects a string of more than \<open>n\<close> characters
  unless the excess is all spaces, which it cuts off.
\<close>

definition round2 :: "rat \<Rightarrow> rat" where
  "round2 x =
     (if 0 \<le> x then of_int \<lfloor>x * 100 + 1 / 2\<rfloor> / 100
      else - (of_int \<lfloor>- x * 100 + 1 / 2\<rfloor> / 100))"

fun decimal2 :: "jsnum \<Rightarrow> jsnum" where
  "decimal2 NaN = NaN"
| "decimal2 (Fin x) = Fin (round2 x)"

definition decimal_error :: "jsnum option \<Rightarrow> db_error option" where
  "decimal_error c =
     (case c of
        None \<Rightarrow> None
      | Some NaN \<Rightarrow> None
      | Some (Fin x) \<Rightarrow> if 100000000 \<le> \<bar>round2 x\<bar> then Some NumericOverflow else None)"

definition stored_text :: "nat \<Rightarrow> string \<Rightarrow> string" where
  "stored_text n str = (if length str \<le> n then str else take n str)"

definition varchar_error :: "nat \<Rightarrow> string option \<Rightarrow> db_error option" where
  "varchar_error n c =
     (case c of
        None \<Rightarrow> None
      | Some str \<Rightarrow>
          if length str \<le> n \<or> drop n str = replicate (length str - n) CHR '' ''
          then None else Some (StringTooLong n))"

fun first_error :: "db_error option list \<Rightarrow> db_error option" where
  "first_error [] = None"
| "first_error (Some e # rest) = Some e"
| "first_error (None # rest) = first_error rest"

text \<open>
  The assignment of the bound values to the columns, in column order: the first value
  that its column type rejects, and the values as the columns hold them.
\<close>

definition coercion_error :: "vals \<Rightarrow> db_error option" where
  "coercion_error v =
     first_error
       [varchar_error 20 (v_symbol v),
        decimal_error (Some (v_strike v)),
        varchar_error 20 (v_expiration_type v),
        decimal_error (v_ask v), decimal_error (v_bid v), decimal_error (v_mid v),
        decimal_error (v_close v), decimal_error (v_high v), decimal_error (v_last v),
        decimal_error (v_low v), decimal_error (v_open v),
        decimal_error (v_previous_close v),
        varchar_error 10 (v_option_type v),
        varchar_error 100 (v_option_symbol v)]"

definition coerce :: "vals \<Rightarrow> vals" where
  "coerce v =
     \<lparr> v_symbol = map_option (stored_text 20) (v_symbol v),
       v_expiration_date = v_expiration_date v,
       v_strike = decimal2 (v_strike v),
       v_expiration_type = map_option (stored_text 20) (v_expiration_type v),
       v_ask = map_option decimal2 (v_ask v),
       v_bid = map_option decimal2 (v_bid v),
       v_mid = map_option decimal2 (v_mid v),
       v_close = map_option decimal2 (v_close v),
       v_high = map_option decimal2 (v_high v),
       v_last = map_option decimal2 (v_last v),
       v_low = map_option decimal2 (v_low v),
       v_open = map_option decimal2 (v_open v),
       v_previous_close = map_option decimal2 (v_previous_close v),
       v_option_type = map_option (stored_text 10) (v_option_type v),
       v_option_symbol = map_option (stored_text 100) (v_option_symbol v),
       v_timestamp = v_timestamp v \<rparr>"

text \<open>
  The constraints of the table on the values as the columns hold them: the
  \<^verbatim>\<open>NOT NULL\<close> columns in column order, then the two
  \<^verbatim>\<open>CHECK\<close> constraints. On success, the row with the id \<open>i\<close>.
\<close>

definition constrain :: "nat \<Rightarrow> vals \<Rightarrow> db_error + row" where
  "constrain i v =
     (case v_symbol v of
        None \<Rightarrow> Inl (NotNullViolation ''symbol'')
      | Some sy \<Rightarrow>
     (case v_expiration_date v of
        None \<Rightarrow> Inl (NotNullViolation ''expiration_date'')
      | Some ed \<Rightarrow>
     (case v_expiration_type v of
        None \<Rightarrow> Inl (NotNullViolation ''expiration_type'')
      | Some et \<Rightarrow>
     (case v_option_type v of
        None \<Rightarrow> Inl (NotNullViolation ''option_type'')
      | Some ot \<Rightarrow>
     (case v_option_symbol v of
        None \<Rightarrow> Inl (NotNullViolation ''option_symbol'')
      | Some os \<Rightarrow>
     (case v_timestamp v of
        None \<Rightarrow> Inl (NotNullViolation ''timestamp'')
      | Some ts \<Rightarrow>
          if et \<noteq> ''Weekly'' \<and> et \<noteq> ''Monthly'' then Inl (CheckViolation ''expiration_type'')
          else if ot \<noteq> ''Put'' \<and> ot \<noteq> ''Call'' then Inl (CheckViolation ''option_type'')
          else Inr \<lparr> id_col = i, symbol = sy, expiration_date = ed, strike = v_strike v,
                     expiration_type = et, ask = v_ask v, bid = v_bid v, mid = v_mid v,
                     close = v_close v, high = v_high v, last_col = v_last v, low = v_low v,
                     open_col = v_open v, previous_close = v_previous_close v,
                     option_type = ot, option_symbol = os, timestamp = ts \<rparr>))))))"

text \<open>
  The row proposed for insertion, or the error of the statement: the values are assigned
  to the columns first, the constraints are checked on the result.
\<close>

definition proposed :: "nat \<Rightarrow> vals \<Rightarrow> db_error + row" where
  "proposed i v =
     (case coercion_error v of
        Some e \<Rightarrow> Inl e
      | None \<Rightarrow> constrain i (coerce v))"

text \<open>
  \<^verbatim>\<open>DO UPDATE SET\<close>: the nine prices, \<^verbatim>\<open>option_symbol\<close> and
  \<^verbatim>\<open>timestamp\<close> are taken from the proposed row (\<^verbatim>\<open>EXCLUDED\<close>);
  every other column keeps its stored value.
\<close>

definition do_update :: "row \<Rightarrow> row \<Rightarrow> row" where
  "do_update excluded r =
     r\<lparr> ask := ask excluded, bid := bid excluded, mid := mid excluded,
        close := close excluded, high := high excluded, last_col := last_col excluded,
        low := low excluded, open_col := open_col excluded,
        previous_close := previous_close excluded,
        option_symbol := option_symbol excluded, timestamp := timestamp excluded \<rparr>"

text \<open>
  One execution of \<^verbatim>\<open>upsertQuery\<close>. The default of \<open>id\<close> draws from the
  sequence before anything else. On success the statement returns
  \<^verbatim>\<open>id, (xmax = 0) AS inserted\<close>.
\<close>

definition upsertQuery :: "db \<Rightarrow> vals \<Rightarrow> (db_error + nat \<times> bool) \<times> db" where
  "upsertQuery d v =
     (let i = seq d + 1; d1 = d\<lparr>seq := i\<rparr> in
      case proposed i v of
        Inl e \<Rightarrow> (Inl e, d1)
      | Inr new \<Rightarrow>
          (case find (\<lambda>r. option_symbol r = option_symbol new) (tbl d1) of
             None \<Rightarrow> (Inr (i, True), d1\<lparr>tbl := tbl d1 @ [new]\<rparr>)
           | Some old \<Rightarrow>
               (Inr (id_col old, False),
                d1\<lparr>tbl := map (\<lambda>r. if option_symbol r = option_symbol new
                                     then do_update new r else r) (tbl d1)\<rparr>)))"

text \<open>An element of the \<^verbatim>\<open>results\<close> array of the upsert.\<close>

record outcome =
  res_id :: nat
  res_action :: string

text \<open>
  The \<^verbatim>\<open>for\<close> loop over \<^verbatim>\<open>optionsData\<close>, with its three accumulators
  (\<^verbatim>\<open>results\<close>, \<^verbatim>\<open>insertedCount\<close>, \<^verbatim>\<open>updatedCount\<close>).
  A statement that fails throws: the loop ends there.
\<close>

fun upsert_loop ::
  "(string \<Rightarrow> jsnum) \<Rightarrow> option_in list \<Rightarrow> db \<Rightarrow> outcome list \<Rightarrow> nat \<Rightarrow> nat
     \<Rightarrow> (db_error + outcome list \<times> nat \<times> nat) \<times> db" where
  "upsert_loop pf [] d acc n_ins n_upd = (Inr (acc, n_ins, n_upd), d)"
| "upsert_loop pf (opt # rest) d acc n_ins n_upd =
     (case upsertQuery d (values_of pf opt) of
        (Inl e, d') \<Rightarrow> (Inl e, d')
      | (Inr (rid, inserted), d') \<Rightarrow>
          upsert_loop pf rest d'
            (acc @ [\<lparr> res_id = rid,
                      res_action = (if inserted then ''inserted'' else ''updated'') \<rparr>])
            (if inserted then n_ins + 1 else n_ins)
            (if inserted then n_upd else n_upd + 1))"

record upsert_summary =
  u_success :: bool
  totalProcessed :: nat
  insertedCount :: nat
  updatedCount :: nat
  u_results :: "outcome list"

text \<open>
  \<^verbatim>\<open>insertOptionsData\<close>: \<^verbatim>\<open>BEGIN\<close>, the loop,
  \<^verbatim>\<open>COMMIT\<close>; the \<^verbatim>\<open>catch\<close> block rolls back and rethrows.
\<close>

definition insertOptionsData ::
  "(string \<Rightarrow> jsnum) \<Rightarrow> db \<Rightarrow> option_in list \<Rightarrow> (db_error + upsert_summary) \<times> db" where
  "insertOptionsData pf d optionsData =
     (case upsert_loop pf optionsData d [] 0 0 of
        (Inl e, d') \<Rightarrow> (Inl e, ROLLBACK d d')
      | (Inr (acc, n_ins, n_upd), d') \<Rightarrow>
          (Inr \<lparr> u_success = True, totalProcessed = length acc,
                 insertedCount = n_ins, updatedCount = n_upd, u_results = acc \<rparr>, d'))"

section \<open>Retention: \<^verbatim>\<open>cleanupOldOptionsData\<close>\<close>

text \<open>
  \<^verbatim>\<open>new Date(x)\<close> keeps the integral part of a time value (truncation towards
  zero).
\<close>

definition new_Date :: "rat \<Rightarrow> time" where
  "new_Date x = (if x < 0 then \<lceil>x\<rceil> else \<lfloor>x\<rfloor>)"

text \<open>\<^verbatim>\<open>MIN\<close> and \<^verbatim>\<open>MAX\<close> over a group; null over no rows.\<close>

definition sql_min :: "time list \<Rightarrow> time option" where
  "sql_min ts = (case ts of [] \<Rightarrow> None | t # rest \<Rightarrow> Some (fold min rest t))"

definition sql_max :: "time list \<Rightarrow> time option" where
  "sql_max ts = (case ts of [] \<Rightarrow> None | t # rest \<Rightarrow> Some (fold max rest t))"

text \<open>A row of \<^verbatim>\<open>countResult\<close>.\<close>

record count_row =
  cr_symbol :: string
  total_records :: int
  old_records :: int
  oldest_timestamp :: "time option"
  newest_timestamp :: "time option"

text \<open>
  \<^verbatim>\<open>countQuery\<close>: one row for each symbol of the list that has rows, in symbol
  order. With no symbol the text reads \<^verbatim>\<open>IN ()\<close>, which the database rejects.
\<close>

definition count_group :: "db \<Rightarrow> time \<Rightarrow> string \<Rightarrow> count_row" where
  "count_group d cutoff s =
     (let grp = filter (\<lambda>r. symbol r = s) (tbl d) in
      \<lparr> cr_symbol = s,
        total_records = int (length grp),
        old_records = int (length (filter (\<lambda>r. timestamp r < cutoff) grp)),
        oldest_timestamp = sql_min (map timestamp grp),
        newest_timestamp = sql_max (map timestamp grp) \<rparr>)"

definition countQuery :: "db \<Rightarrow> string list \<Rightarrow> time \<Rightarrow> db_error + count_row list" where
  "countQuery d symbols cutoff =
     (if symbols = [] then Inl SyntaxError
      else Inr (map (count_group d cutoff)
                  (sort (remdups (filter (\<lambda>s. s \<in> set symbols) (map symbol (tbl d)))))))"

text \<open>
  \<^verbatim>\<open>deleteQuery\<close>: \<^verbatim>\<open>DELETE ... WHERE symbol = $1 AND timestamp < $2\<close>,
  returning \<^verbatim>\<open>rowCount\<close>.
\<close>

definition deleteQuery :: "db \<Rightarrow> string \<Rightarrow> time \<Rightarrow> int \<times> db" where
  "deleteQuery d s cutoff =
     (int (length (filter (\<lambda>r. symbol r = s \<and> timestamp r < cutoff) (tbl d))),
      d\<lparr>tbl := filter (\<lambda>r. \<not> (symbol r = s \<and> timestamp r < cutoff)) (tbl d)\<rparr>)"

text \<open>
  An element of \<^verbatim>\<open>cleanupResults\<close>. A dry-run entry has
  \<^verbatim>\<open>oldRecords\<close> and no \<^verbatim>\<open>deletedRecords\<close>; the other two kinds have
  \<^verbatim>\<open>deletedRecords\<close> and no \<^verbatim>\<open>oldRecords\<close>.
\<close>

record cleanup_entry =
  e_symbol :: string
  totalRecords :: int
  oldRecords :: "int option"
  deletedRecords :: "int option"
  keptRecords :: int
  oldestTimestamp :: "time option"
  newestTimestamp :: "time option"
  action :: string

text \<open>The three object literals pushed to \<^verbatim>\<open>cleanupResults\<close>.\<close>

definition would_delete_entry :: "count_row \<Rightarrow> cleanup_entry" where
  "would_delete_entry cr =
     \<lparr> e_symbol = cr_symbol cr,
       totalRecords = total_records cr,
       oldRecords = Some (old_records cr),
       deletedRecords = None,
       keptRecords = total_records cr - old_records cr,
       oldestTimestamp = oldest_timestamp cr,
       newestTimestamp = newest_timestamp cr,
       action = ''would_delete'' \<rparr>"

definition deleted_entry :: "count_row \<Rightarrow> int \<Rightarrow> cleanup_entry" where
  "deleted_entry cr deletedCount =
     \<lparr> e_symbol = cr_symbol cr,
       totalRecords = total_records cr,
       oldRecords = None,
       deletedRecords = Some deletedCount,
       keptRecords = total_records cr - deletedCount,
       oldestTimestamp = oldest_timestamp cr,
       newestTimestamp = newest_timestamp cr,
       action = ''deleted'' \<rparr>"

definition no_action_entry :: "count_row \<Rightarrow> cleanup_entry" where
  "no_action_entry cr =
     \<lparr> e_symbol = cr_symbol cr,
       totalRecords = total_records cr,
       oldRecords = None,
       deletedRecords = Some 0,
       keptRecords = total_records cr,
       oldestTimestamp = oldest_timestamp cr,
       newestTimestamp = newest_timestamp cr,
       action = ''no_action'' \<rparr>"

text \<open>
  The loop over \<^verbatim>\<open>countResult.rows\<close>, with \<^verbatim>\<open>totalDeleted\<close> and
  \<^verbatim>\<open>cleanupResults\<close> as accumulators.
\<close>

fun cleanup_loop ::
  "bool \<Rightarrow> time \<Rightarrow> count_row list \<Rightarrow> db \<Rightarrow> int \<Rightarrow> cleanup_entry list
     \<Rightarrow> db \<times> int \<times> cleanup_entry list" where
  "cleanup_loop dry cutoff [] d n_del acc = (d, n_del, acc)"
| "cleanup_loop dry cutoff (cr # rest) d n_del acc =
     (if old_records cr > 0 then
        if dry then cleanup_loop dry cutoff rest d n_del (acc @ [would_delete_entry cr])
        else
          (case deleteQuery d (cr_symbol cr) cutoff of
             (deletedCount, d') \<Rightarrow>
               cleanup_loop dry cutoff rest d' (n_del + deletedCount)
                 (acc @ [deleted_entry cr deletedCount]))
      else cleanup_loop dry cutoff rest d n_del (acc @ [no_action_entry cr]))"

text \<open>
  \<^verbatim>\<open>wouldDeleteTotal\<close>, which the dry run computes for its log line:
  \<^verbatim>\<open>cleanupResults.reduce((sum, result) => sum + (result.oldRecords || 0), 0)\<close>.
\<close>

definition wouldDeleteTotal :: "cleanup_entry list \<Rightarrow> int" where
  "wouldDeleteTotal rs =
     fold (\<lambda>result sum. sum + (case oldRecords result of None \<Rightarrow> 0 | Some n \<Rightarrow> n)) rs 0"

text \<open>
  The object the cleanup returns. The early return of
  \<^verbatim>\<open>cleanupAllOldOptionsData\<close> has no \<^verbatim>\<open>cutoffTime\<close> and no
  \<^verbatim>\<open>keepHours\<close>.
\<close>

record cleanup_result =
  success :: bool
  dryRun :: bool
  cutoffTime :: "time option"
  keepHours :: "rat option"
  symbolsProcessed :: int
  totalDeleted :: int
  results :: "cleanup_entry list"

text \<open>
  \<^verbatim>\<open>cleanupOldOptionsData(symbols, keepHours, dryRun)\<close> at the instant
  \<open>now\<close> (\<^verbatim>\<open>Date.now()\<close>). The cutoff is
  \<^verbatim>\<open>new Date(Date.now() - (keepHours * 60 * 60 * 1000))\<close>: three products
  from left to right and a difference, each rounded to a double by \<open>rnd\<close>. Then
  \<^verbatim>\<open>BEGIN\<close>, the count, the loop, and \<^verbatim>\<open>COMMIT\<close> in a live run
  or \<^verbatim>\<open>ROLLBACK\<close> in a dry run. A failing statement rolls back and rethrows.
\<close>

definition cutoff_time :: "(rat \<Rightarrow> rat) \<Rightarrow> time \<Rightarrow> rat \<Rightarrow> time" where
  "cutoff_time rnd now keep_hours =
     new_Date (rnd (of_int now - rnd (rnd (rnd (keep_hours * 60) * 60) * 1000)))"

definition cleanupOldOptionsData ::
  "(rat \<Rightarrow> rat) \<Rightarrow> db \<Rightarrow> time \<Rightarrow> string list \<Rightarrow> rat \<Rightarrow> bool
     \<Rightarrow> (db_error + cleanup_result) \<times> db" where
  "cleanupOldOptionsData rnd d now symbols keep_hours dry =
     (let cutoff = cutoff_time rnd now keep_hours in
      case countQuery d symbols cutoff of
        Inl e \<Rightarrow> (Inl e, ROLLBACK d d)
      | Inr rows \<Rightarrow>
          (case cleanup_loop dry cutoff rows d 0 [] of
             (d', n_del, acc) \<Rightarrow>
               (Inr \<lparr> success = True, dryRun = dry, cutoffTime = Some cutoff,
                      keepHours = Some keep_hours,
                      symbolsProcessed = int (length symbols),
                      totalDeleted = n_del, results = acc \<rparr>,
                if \<not> dry then d' else ROLLBACK d d')))"

text \<open>
  \<^verbatim>\<open>cleanupAllOldOptionsData(keepHours, dryRun)\<close>: the distinct symbols of the
  table, in order; with none, an empty result and no transaction.
\<close>

definition cleanupAllOldOptionsData ::
  "(rat \<Rightarrow> rat) \<Rightarrow> db \<Rightarrow> time \<Rightarrow> rat \<Rightarrow> bool \<Rightarrow> (db_error + cleanup_result) \<times> db" where
  "cleanupAllOldOptionsData rnd d now keep_hours dry =
     (let symbols = sort (remdups (map symbol (tbl d))) in
      if length symbols = 0 then
        (Inr \<lparr> success = True, dryRun = dry, cutoffTime = None, keepHours = None,
               symbolsProcessed = 0, totalDeleted = 0, results = [] \<rparr>, d)
      else cleanupOldOptionsData rnd d now symbols keep_hours dry)"

section \<open>Queries\<close>

text \<open>
  The order of the \<^verbatim>\<open>strike\<close> column: numbers by value, \<^verbatim>\<open>NaN\<close>
  after every number.
\<close>

fun strike_key :: "jsnum \<Rightarrow> bool \<times> rat" where
  "strike_key (Fin x) = (False, x)"
| "strike_key NaN = (True, 0)"

text \<open>
  \<^verbatim>\<open>getLatestOptionsData(symbol, limit = 100)\<close>:
  \<^verbatim>\<open>ORDER BY timestamp DESC, expiration_date, strike LIMIT $2\<close>. The argument
  is \<open>None\<close> when the caller omits it. Rows equal on all three keys stay in table order.
  The database rejects a negative limit.
\<close>

definition getLatestOptionsData :: "db \<Rightarrow> string \<Rightarrow> int option \<Rightarrow> db_error + row list" where
  "getLatestOptionsData d s limit_arg =
     (let n = (case limit_arg of None \<Rightarrow> 100 | Some l \<Rightarrow> l) in
      if n < 0 then Inl NegativeLimit
      else Inr (take (nat n)
                 (sort_key (\<lambda>r. (- timestamp r, expiration_date r, strike_key (strike r)))
                    (filter (\<lambda>r. symbol r = s) (tbl d)))))"

text \<open>Addition of decimals: \<^verbatim>\<open>NaN\<close> absorbs.\<close>

fun num_add :: "jsnum \<Rightarrow> jsnum \<Rightarrow> jsnum" where
  "num_add (Fin a) (Fin b) = Fin (a + b)"
| "num_add NaN b = NaN"
| "num_add a NaN = NaN"

text \<open>
  \<^verbatim>\<open>SUM\<close> skips nulls and is null over no value; \<^verbatim>\<open>COUNT(e)\<close>
  counts the non-null values of \<open>e\<close>.
\<close>

definition sql_sum :: "jsnum option list \<Rightarrow> jsnum option" where
  "sql_sum xs =
     (case List.map_filter id xs of
        [] \<Rightarrow> None
      | y # ys \<Rightarrow> Some (fold (\<lambda>a s. num_add s a) ys y))"

definition sql_count :: "'a option list \<Rightarrow> int" where
  "sql_count xs = int (length (List.map_filter id xs))"

record agg_row =
  g_expiration_date :: time
  g_strike :: jsnum
  call_mid_price :: "jsnum option"
  put_mid_price :: "jsnum option"
  total_mid_price :: "jsnum option"
  option_count :: int
  call_count :: int
  put_count :: int

text \<open>
  The select list shared by the two aggregating queries, over the rows of one group.
\<close>

definition agg_columns :: "time \<times> jsnum \<Rightarrow> row list \<Rightarrow> agg_row" where
  "agg_columns g grp =
     \<lparr> g_expiration_date = fst g,
       g_strike = snd g,
       call_mid_price =
         sql_sum (map (\<lambda>r. if option_type r = ''Call'' then mid r else Some (Fin 0)) grp),
       put_mid_price =
         sql_sum (map (\<lambda>r. if option_type r = ''Put'' then mid r else Some (Fin 0)) grp),
       total_mid_price = sql_sum (map mid grp),
       option_count = int (length grp),
       call_count =
         sql_count (map (\<lambda>r. if option_type r = ''Call'' then Some (1::int) else None) grp),
       put_count =
         sql_count (map (\<lambda>r. if option_type r = ''Put'' then Some (1::int) else None) grp) \<rparr>"

text \<open>
  \<^verbatim>\<open>GROUP BY expiration_date, strike ORDER BY expiration_date, strike\<close>: the keys
  of the groups in order, and the rows of a group.
\<close>

definition group_keys :: "row list \<Rightarrow> (time \<times> jsnum) list" where
  "group_keys rs =
     sort_key (\<lambda>g. (fst g, strike_key (snd g)))
       (remdups (map (\<lambda>r. (expiration_date r, strike r)) rs))"

definition group_rows :: "row list \<Rightarrow> time \<times> jsnum \<Rightarrow> row list" where
  "group_rows rs g = filter (\<lambda>r. (expiration_date r, strike r) = g) rs"

text \<open>\<^verbatim>\<open>getAggregatedOptionsData(symbol, startDate, endDate)\<close>.\<close>

definition getAggregatedOptionsData :: "db \<Rightarrow> string \<Rightarrow> time \<Rightarrow> time \<Rightarrow> agg_row list" where
  "getAggregatedOptionsData d s startDate endDate =
     (let rs = filter (\<lambda>r. symbol r = s
                          \<and> startDate \<le> expiration_date r \<and> expiration_date r \<le> endDate
                          \<and> mid r \<noteq> None) (tbl d)
      in map (\<lambda>g. agg_columns g (group_rows rs g)) (group_keys rs))"

text \<open>\<^verbatim>\<open>STRING_AGG(DISTINCT symbol, ', ')\<close>: the distinct values in order.\<close>

fun join :: "string \<Rightarrow> string list \<Rightarrow> string" where
  "join sep [] = []"
| "join sep [x] = x"
| "join sep (x # y # ys) = x @ sep @ join sep (y # ys)"

definition string_agg_distinct :: "string list \<Rightarrow> string" where
  "string_agg_distinct xs = join '', '' (sort (remdups xs))"

text \<open>
  \<^verbatim>\<open>getAggregatedOptionsDataMultiSymbol(symbols, startDate, endDate)\<close>: the same
  columns and the \<^verbatim>\<open>symbols\<close> column. With no symbol the text reads
  \<^verbatim>\<open>IN ()\<close>.
\<close>

definition getAggregatedOptionsDataMultiSymbol ::
  "db \<Rightarrow> string list \<Rightarrow> time \<Rightarrow> time \<Rightarrow> db_error + (agg_row \<times> string) list" where
  "getAggregatedOptionsDataMultiSymbol d symbols startDate endDate =
     (if symbols = [] then Inl SyntaxError
      else
        let rs = filter (\<lambda>r. symbol r \<in> set symbols
                            \<and> startDate \<le> expiration_date r \<and> expiration_date r \<le> endDate
                            \<and> mid r \<noteq> None) (tbl d)
        in Inr (map (\<lambda>g. (agg_columns g (group_rows rs g),
                          string_agg_distinct (map symbol (group_rows rs g))))
                  (group_keys rs)))"

section \<open>Callers of the cleanup\<close>

datatype 'a response = Status401 | Status400 string | Status500 db_error | Status200 'a

text \<open>The dispatch shared by the two handlers of \<^verbatim>\<open>/api/cleanup-options\<close>.\<close>

definition cleanup_dispatch ::
  "(rat \<Rightarrow> rat) \<Rightarrow> db \<Rightarrow> time \<Rightarrow> string list option \<Rightarrow> rat \<Rightarrow> bool
     \<Rightarrow> cleanup_result response \<times> db" where
  "cleanup_dispatch rnd d now symbols keep_hours dry =
     (case (case symbols of
              Some (s # ss) \<Rightarrow> cleanupOldOptionsData rnd d now (s # ss) keep_hours dry
            | _ \<Rightarrow> cleanupAllOldOptionsData rnd d now keep_hours dry) of
        (Inl e, d') \<Rightarrow> (Status500 e, d')
      | (Inr res, d') \<Rightarrow> (Status200 res, d'))"

text \<open>
  \<^verbatim>\<open>POST /api/cleanup-options\<close>: the body gives \<^verbatim>\<open>symbols\<close>
  (default \<^verbatim>\<open>null\<close>), \<^verbatim>\<open>keepHours\<close> (default 0.5) and
  \<^verbatim>\<open>dryRun\<close> (default false); \<open>authorized\<close> is the result of
  \<^verbatim>\<open>verifyApiKey\<close>.
\<close>

definition cleanup_options_POST ::
  "(rat \<Rightarrow> rat) \<Rightarrow> db \<Rightarrow> time \<Rightarrow> bool \<Rightarrow> string list option \<Rightarrow> rat option
     \<Rightarrow> bool option \<Rightarrow> cleanup_result response \<times> db" where
  "cleanup_options_POST rnd d now authorized symbols keep_hours_arg dry_arg =
     (if \<not> authorized then (Status401, d)
      else
        let keep_hours = (case keep_hours_arg of None \<Rightarrow> 1 / 2 | Some k \<Rightarrow> k);
            dry = (case dry_arg of None \<Rightarrow> False | Some b \<Rightarrow> b)
        in if keep_hours \<le> 0 then (Status400 ''keepHours must be a positive number'', d)
           else cleanup_dispatch rnd d now symbols keep_hours dry)"

text \<open>
  \<^verbatim>\<open>GET /api/cleanup-options\<close>:
  \<^verbatim>\<open>parseFloat(searchParams.get('keepHours')) || 0.5\<close>, where \<open>keep_param\<close> is
  the value \<^verbatim>\<open>parseFloat\<close> returns; zero and \<^verbatim>\<open>NaN\<close> are falsy.
\<close>

definition cleanup_options_GET ::
  "(rat \<Rightarrow> rat) \<Rightarrow> db \<Rightarrow> time \<Rightarrow> bool \<Rightarrow> string list option \<Rightarrow> jsnum \<Rightarrow> bool
     \<Rightarrow> cleanup_result response \<times> db" where
  "cleanup_options_GET rnd d now authorized symbols keep_param dry =
     (if \<not> authorized then (Status401, d)
      else
        let keep_hours = (case keep_param of NaN \<Rightarrow> 1 / 2
                          | Fin k \<Rightarrow> if k = 0 then 1 / 2 else k)
        in if keep_hours \<le> 0 then (Status400 ''keepHours must be a positive number'', d)
           else cleanup_dispatch rnd d now symbols keep_hours dry)"

text \<open>
  The cleanup step of \<^verbatim>\<open>POST /api/collect-options\<close>: the symbols lose a leading
  \<^verbatim>\<open>$\<close> and a trailing \<^verbatim>\<open>.X\<close>, and \<^verbatim>\<open>keepHours\<close> of the
  body goes to the cleanup as it is. An error of the cleanup is logged and dropped.
\<close>

definition normalize_symbol :: "string \<Rightarrow> string" where
  "normalize_symbol s =
     (let s1 = (case s of c # cs \<Rightarrow> if c = CHR ''$'' then cs else s | [] \<Rightarrow> s) in
      if 2 \<le> length s1 \<and> drop (length s1 - 2) s1 = ''.X''
      then take (length s1 - 2) s1 else s1)"

definition collect_cleanup_step ::
  "(rat \<Rightarrow> rat) \<Rightarrow> db \<Rightarrow> time \<Rightarrow> string list \<Rightarrow> rat \<Rightarrow> bool \<Rightarrow> bool
     \<Rightarrow> cleanup_result option \<times> db" where
  "collect_cleanup_step rnd d now symbols keep_hours saveToDatabase cleanupOldData =
     (if saveToDatabase \<and> cleanupOldData then
        (case cleanupOldOptionsData rnd d now (map normalize_symbol symbols) keep_hours False of
           (Inl e, d') \<Rightarrow> (None, d')
         | (Inr res, d') \<Rightarrow> (Some res, d'))
      else (None, d))"

section \<open>Callers of the latest-rows query\<close>

text \<open>
  The two \<^verbatim>\<open>GET\<close> handlers that serve the latest rows read the limit as
  \<^verbatim>\<open>parseInt(searchParams.get('limit')) || 100\<close>; \<open>None\<close> stands for
  \<^verbatim>\<open>NaN\<close>. Zero is falsy.
\<close>

definition handler_limit :: "int option \<Rightarrow> int" where
  "handler_limit p = (case p of None \<Rightarrow> 100 | Some n \<Rightarrow> if n = 0 then 100 else n)"

text \<open>
  \<^verbatim>\<open>GET /api/options-data\<close> without \<^verbatim>\<open>startDate\<close>: the
  \<^verbatim>\<open>symbol\<close> parameter is required and must not be empty.
\<close>

definition options_data_GET :: "db \<Rightarrow> bool \<Rightarrow> string option \<Rightarrow> int option \<Rightarrow> row list response" where
  "options_data_GET d authorized symbol_param limit_param =
     (if \<not> authorized then Status401
      else
        (case symbol_param of
           None \<Rightarrow> Status400 ''Symbol parameter is required''
         | Some s \<Rightarrow>
             if s = [] then Status400 ''Symbol parameter is required''
             else
               (case getLatestOptionsData d s (Some (handler_limit limit_param)) of
                  Inl e \<Rightarrow> Status500 e
                | Inr rows \<Rightarrow> Status200 rows)))"

section \<open>Notions used in the statements\<close>

text \<open>
  The error that the bound values of a record raise in the statement, if any: a value its
  column type rejects or a violated constraint. It does not depend on the id the row would
  draw, nor on the table.
\<close>

definition row_error :: "vals \<Rightarrow> db_error option" where
  "row_error v = (case proposed 0 v of Inl e \<Rightarrow> Some e | Inr r \<Rightarrow> None)"

text \<open>
  The option symbol under which a record is stored.
\<close>

definition stored_key :: "option_in \<Rightarrow> string option" where
  "stored_key opt = map_option (stored_text 100) (o_symbol opt)"

text \<open>
  How a price field of an incoming record relates to the stored column: nothing is stored
  for a missing field; a non-zero number is stored rounded to two decimals; so is the
  number read from a non-empty string. The statement is silent on the number zero, on the
  empty string and on a string that is read as \<^verbatim>\<open>NaN\<close>.
\<close>

definition stores :: "(string \<Rightarrow> jsnum) \<Rightarrow> jsval \<Rightarrow> jsnum option \<Rightarrow> bool" where
  "stores pf v c =
     (case v of
        JNull \<Rightarrow> c = None
      | JNum x \<Rightarrow> x \<noteq> 0 \<longrightarrow> c = Some (Fin (round2 x))
      | JStr str \<Rightarrow>
          (case pf str of
             NaN \<Rightarrow> True
           | Fin y \<Rightarrow> str \<noteq> [] \<longrightarrow> c = Some (Fin (round2 y))))"

text \<open>The columns that an update of a stored row does not write.\<close>

definition kept_columns :: "row \<Rightarrow> nat \<times> string \<times> time \<times> jsnum \<times> string \<times> string" where
  "kept_columns r =
     (id_col r, symbol r, expiration_date r, strike r, expiration_type r, option_type r)"

text \<open>
  No rounding occurs in the computation of the cutoff: each of the three products and the
  difference is a double.
\<close>

definition exact_arith :: "(rat \<Rightarrow> rat) \<Rightarrow> time \<Rightarrow> rat \<Rightarrow> bool" where
  "exact_arith rnd now keep_hours =
     (rnd (keep_hours * 60) = keep_hours * 60
      \<and> rnd (keep_hours * 60 * 60) = keep_hours * 60 * 60
      \<and> rnd (keep_hours * 60 * 60 * 1000) = keep_hours * 60 * 60 * 1000
      \<and> rnd (of_int now - keep_hours * 60 * 60 * 1000)
           = of_int now - keep_hours * 60 * 60 * 1000)"

text \<open>
  The order of \<^verbatim>\<open>ORDER BY timestamp DESC, expiration_date, strike\<close>, written
  out: \<open>a\<close> may stand before \<open>b\<close>. Strikes compare as numbers, with
  \<^verbatim>\<open>NaN\<close> last.
\<close>

fun strike_le :: "jsnum \<Rightarrow> jsnum \<Rightarrow> bool" where
  "strike_le (Fin x) (Fin y) = (x \<le> y)"
| "strike_le a NaN = True"
| "strike_le NaN (Fin y) = False"

definition latest_order :: "row \<Rightarrow> row \<Rightarrow> bool" where
  "latest_order a b =
     (timestamp b < timestamp a
      \<or> (timestamp a = timestamp b
          \<and> (expiration_date a < expiration_date b
              \<or> (expiration_date a = expiration_date b
                  \<and> strike_le (strike a) (strike b)))))"

text \<open>
  The rows among \<open>rs\<close> that belong to the group \<open>g\<close> of an aggregation over
  the given range of expiration dates and have a mid price.
\<close>

definition contributing :: "row list \<Rightarrow> time \<Rightarrow> time \<Rightarrow> time \<times> jsnum \<Rightarrow> row list" where
  "contributing rs startDate endDate g =
     filter (\<lambda>r. startDate \<le> expiration_date r \<and> expiration_date r \<le> endDate
                 \<and> (expiration_date r, strike r) = g \<and> mid r \<noteq> None) rs"

text \<open>The nine price columns of a row, and the nine prices bound for a record.\<close>

definition row_prices :: "row \<Rightarrow> jsnum option list" where
  "row_prices r =
     [ask r, bid r, mid r, close r, high r, last_col r, low r, open_col r, previous_close r]"

definition bound_prices :: "vals \<Rightarrow> jsnum option list" where
  "bound_prices v =
     [v_ask v, v_bid v, v_mid v, v_close v, v_high v, v_last v, v_low v, v_open v,
      v_previous_close v]"

text \<open>The rows of a symbol, and those of them observed before a cutoff.\<close>

definition rows_of :: "db \<Rightarrow> string \<Rightarrow> row list" where
  "rows_of d s = filter (\<lambda>r. symbol r = s) (tbl d)"

definition stale_of :: "db \<Rightarrow> time \<Rightarrow> string \<Rightarrow> row list" where
  "stale_of d cutoff s = filter (\<lambda>r. symbol r = s \<and> timestamp r < cutoff) (tbl d)"

text \<open>The per-symbol deletion count of an entry, whichever field carries it.\<close>

definition deleted_of :: "cleanup_entry \<Rightarrow> int" where
  "deleted_of e = (case deletedRecords e of None \<Rightarrow> 0 | Some n \<Rightarrow> n)"

definition would_delete_of :: "cleanup_entry \<Rightarrow> int" where
  "would_delete_of e = (case oldRecords e of None \<Rightarrow> 0 | Some n \<Rightarrow> n)"

section \<open>Example data\<close>

text \<open>A reading of strings that agrees with \<^verbatim>\<open>parseFloat\<close> on the two used below.\<close>

definition parse_ex :: "string \<Rightarrow> jsnum" where
  "parse_ex str = (if str = ''0'' then Fin 0 else if str = ''5.0'' then Fin 5 else NaN)"

definition quote_ex :: option_in where
  "quote_ex =
     \<lparr> o_expiration_date = Some 9000, o_strike = JNum 100,
       o_expiration_type = Some ''Weekly'',
       o_ask = JNum 2, o_bid = JNum 1, o_mid = JNum (3 / 2),
       o_close = JNull, o_high = JNull, o_last = JNull, o_low = JNull, o_open = JNull,
       o_previous_close = JNull,
       o_option_type = Some ''Call'', o_symbol = Some ''SPX 250919C100'',
       o_timestamp = Some 1000 \<rparr>"

text \<open>
  A later quote of the same contract: a zero ask as a number, a zero bid as a string, and
  other values for strike and option type.
\<close>

definition quote_again :: option_in where
  "quote_again =
     quote_ex\<lparr> o_strike := JNum 999, o_ask := JNum 0, o_bid := JStr ''0'',
               o_mid := JStr ''5.0'', o_option_type := Some ''Put'',
               o_timestamp := Some 2000 \<rparr>"

definition quote_bad :: option_in where
  "quote_bad = quote_ex\<lparr> o_symbol := None \<rparr>"

text \<open>
  A later quote of the same contract with an ask of 1.005, and quotes that a column type
  rejects: a strike of nine digits, and an expiration type of more than twenty characters.
\<close>

definition quote_fine :: option_in where
  "quote_fine = quote_ex\<lparr> o_ask := JNum (201 / 200), o_timestamp := Some 2000 \<rparr>"

definition quote_overflow :: option_in where
  "quote_overflow = quote_ex\<lparr> o_strike := JNum 123456789 \<rparr>"

definition quote_long :: option_in where
  "quote_long = quote_ex\<lparr> o_expiration_type := Some ''Weekly-and-then-some-more'' \<rparr>"

text \<open>
  Another contract, and the table after it follows \<open>row_ex\<close>.
\<close>

definition quote_other :: option_in where
  "quote_other = quote_ex\<lparr> o_symbol := Some ''SPX 250919P100'', o_option_type := Some ''Put'' \<rparr>"

definition row_ex :: row where
  "row_ex =
     \<lparr> id_col = 1, symbol = ''SPX'', expiration_date = 9000, strike = Fin 100,
       expiration_type = ''Weekly'',
       ask = Some (Fin 2), bid = Some (Fin 1), mid = Some (Fin (3 / 2)),
       close = None, high = None, last_col = None, low = None, open_col = None,
       previous_close = None,
       option_type = ''Call'', option_symbol = ''SPX 250919C100'', timestamp = 1000 \<rparr>"

definition db_empty :: db where
  "db_empty = \<lparr> tbl = [], seq = 0 \<rparr>"

definition db_one :: db where
  "db_one = \<lparr> tbl = [row_ex], seq = 1 \<rparr>"

text \<open>
  Three rows of one symbol observed two hours, forty minutes and ten minutes before
  \<open>now_ex\<close>, and a table holding them.
\<close>

definition now_ex :: time where
  "now_ex = 7200000"

text \<open>
  The rounding of the examples: their arithmetic is exact in doubles, so nothing is
  rounded.
\<close>

definition exact :: "rat \<Rightarrow> rat" where
  "exact x = x"

definition row_at :: "nat \<Rightarrow> string \<Rightarrow> time \<Rightarrow> jsnum option \<Rightarrow> row" where
  "row_at i s t m =
     \<lparr> id_col = i, symbol = s, expiration_date = 9000, strike = Fin 100,
       expiration_type = ''Weekly'',
       ask = None, bid = None, mid = m,
       close = None, high = None, last_col = None, low = None, open_col = None,
       previous_close = None,
       option_type = ''Call'', option_symbol = s @ '' '' @ replicate i CHR ''x'',
       timestamp = t \<rparr>"

definition db_three :: db where
  "db_three =
     \<lparr> tbl = [row_at 1 ''SPX'' 0 None,
              row_at 2 ''SPX'' 4800000 (Some (Fin 5)),
              row_at 3 ''SPX'' 6600000 (Some (Fin 7))],
       seq = 3 \<rparr>"

text \<open>One group of two rows, the first without a mid price, the second with 5.\<close>

definition db_null_mid :: db where
  "db_null_mid =
     \<lparr> tbl = [row_at 1 ''SPX'' 1000 None, row_at 2 ''SPX'' 1000 (Some (Fin 5))], seq = 2 \<rparr>"

text \<open>
  A row observed one millisecond before \<open>now_ex\<close>, and the duration of
  \<open>1 / 4194304\<close> hours, which is 0.858306884765625 milliseconds: a power of two, so
  that the three products and the difference are doubles.
\<close>

definition db_edge :: db where
  "db_edge = \<lparr> tbl = [row_at 1 ''SPX'' 7199999 None], seq = 1 \<rparr>"

text \<open>The result of the dry run over \<open>db_three\<close> that keeps thirty minutes.\<close>

definition dry_result_ex :: cleanup_result where
  "dry_result_ex =
     \<lparr> success = True, dryRun = True, cutoffTime = Some 5400000, keepHours = Some (1 / 2),
       symbolsProcessed = 2, totalDeleted = 0,
       results = [\<lparr> e_symbol = ''SPX'', totalRecords = 3, oldRecords = Some 2,
                    deletedRecords = None, keptRecords = 1,
                    oldestTimestamp = Some 0, newestTimestamp = Some 6600000,
                    action = ''would_delete'' \<rparr>] \<rparr>"

section \<open>Ingestion: properties\<close>

lemma constrain_error_id: "constrain i v = Inl e \<Longrightarrow> constrain j v = Inl e"
  by (auto simp: constrain_def split: option.splits if_splits)

lemma proposed_error_id: "proposed i v = Inl e \<Longrightarrow> proposed j v = Inl e"
proof (cases "coercion_error v")
  case None
  assume "proposed i v = Inl e"
  with None have "constrain i (coerce v) = Inl e" by (simp add: proposed_def)
  then have "constrain j (coerce v) = Inl e" by (rule constrain_error_id)
  with None show ?thesis by (simp add: proposed_def)
next
  case (Some e')
  assume "proposed i v = Inl e"
  with Some show ?thesis by (simp add: proposed_def)
qed

lemma upsertQuery_error:
  "proposed i v = Inl e \<Longrightarrow> fst (upsertQuery d v) = Inl e"
  using proposed_error_id[of i v e "seq d + 1"]
  by (simp add: upsertQuery_def Let_def)

lemma upsertQuery_ok:
  "fst (upsertQuery d v) = Inr x \<Longrightarrow> \<exists>r. proposed i v = Inr r"
  apply (cases "proposed i v")
   apply (drule upsertQuery_error[where d=d]) apply simp
  apply blast
  done

lemma upsert_loop_error:
  "opt \<in> set batch \<Longrightarrow> proposed i (values_of pf opt) = Inl e \<Longrightarrow>
   \<exists>e'. fst (upsert_loop pf batch d acc n_ins n_upd) = Inl e'"
proof (induction batch arbitrary: d acc n_ins n_upd)
  case Nil
  then show ?case by simp
next
  case (Cons a batch)
  show ?case
  proof (cases "upsertQuery d (values_of pf a)")
    case (Pair res d')
    show ?thesis
    proof (cases res)
      case (Inl e1)
      with Pair show ?thesis by simp
    next
      case (Inr x)
      with Pair have "fst (upsertQuery d (values_of pf a)) = Inr x" by simp
      from upsertQuery_ok[OF this, of i] Cons.prems(2) have "a \<noteq> opt" by auto
      with Cons.prems(1) have "opt \<in> set batch" by simp
      from Cons.IH[OF this Cons.prems(2)] Pair Inr show ?thesis
        by (cases x) simp
    qed
  qed
qed

lemma row_error_proposed: "row_error v = Some e \<longleftrightarrow> proposed i v = Inl e"
proof
  assume "row_error v = Some e"
  then have "proposed 0 v = Inl e"
    by (simp add: row_error_def split: sum.splits)
  then show "proposed i v = Inl e" by (rule proposed_error_id)
next
  assume "proposed i v = Inl e"
  then have "proposed 0 v = Inl e" by (rule proposed_error_id)
  then show "row_error v = Some e" by (simp add: row_error_def)
qed

lemma filter_key_distinct:
  "distinct (map g xs) \<Longrightarrow> x \<in> set xs \<Longrightarrow> filter (\<lambda>r. g r = g x) xs = [x]"
proof (induction xs)
  case Nil
  then show ?case by simp
next
  case (Cons a xs)
  show ?case
  proof (cases "a = x")
    case True
    with Cons.prems have "\<forall>r\<in>set xs. g r \<noteq> g x" by (auto simp: image_iff)
    then have "filter (\<lambda>r. g r = g x) xs = []" by (simp add: filter_empty_conv)
    with True show ?thesis by simp
  next
    case False
    with Cons.prems have "x \<in> set xs" "g a \<noteq> g x" by (auto simp: image_iff)
    with Cons show ?thesis by simp
  qed
qed

lemma find_key_distinct:
  "distinct (map g xs) \<Longrightarrow> x \<in> set xs \<Longrightarrow> find (\<lambda>r. g r = g x) xs = Some x"
  by (induction xs) (auto simp: image_iff)

lemma constrain_Inr_fields:
  "constrain i v = Inr r \<Longrightarrow>
     v_option_symbol v = Some (option_symbol r) \<and> v_timestamp v = Some (timestamp r) \<and>
     ask r = v_ask v \<and> bid r = v_bid v \<and> mid r = v_mid v \<and> close r = v_close v \<and>
     high r = v_high v \<and> last_col r = v_last v \<and> low r = v_low v \<and>
     open_col r = v_open v \<and> previous_close r = v_previous_close v"
  by (auto simp: constrain_def split: option.splits if_splits)

lemma proposed_Inr_fields:
  assumes "proposed i v = Inr r"
  shows "v_option_symbol (coerce v) = Some (option_symbol r) \<and>
     v_timestamp (coerce v) = Some (timestamp r) \<and>
     ask r = v_ask (coerce v) \<and> bid r = v_bid (coerce v) \<and> mid r = v_mid (coerce v) \<and>
     close r = v_close (coerce v) \<and> high r = v_high (coerce v) \<and>
     last_col r = v_last (coerce v) \<and> low r = v_low (coerce v) \<and>
     open_col r = v_open (coerce v) \<and> previous_close r = v_previous_close (coerce v)"
proof (cases "coercion_error v")
  case None
  with assms have "constrain i (coerce v) = Inr r" by (simp add: proposed_def)
  then show ?thesis by (rule constrain_Inr_fields)
next
  case (Some e)
  with assms show ?thesis by (simp add: proposed_def)
qed

lemma upsertQuery_Inr:
  assumes "fst (upsertQuery d v) = Inr x"
  obtains new where "proposed (seq d + 1) v = Inr new"
proof (cases "proposed (seq d + 1) v")
  case (Inl e)
  with assms show ?thesis by (simp add: upsertQuery_def Let_def)
next
  case (Inr new)
  then show ?thesis using that by blast
qed

lemma upsertQuery_found:
  assumes "proposed (seq d + 1) v = Inr new"
    and "find (\<lambda>r. option_symbol r = option_symbol new) (tbl d) = Some old"
  shows "upsertQuery d v = (Inr (id_col old, False),
           d\<lparr>seq := seq d + 1, tbl := map (\<lambda>r. if option_symbol r = option_symbol new
                                     then do_update new r else r) (tbl d)\<rparr>)"
  using assms by (simp add: upsertQuery_def Let_def)

lemma upsertQuery_fresh:
  assumes "proposed (seq d + 1) v = Inr new"
    and "find (\<lambda>r. option_symbol r = option_symbol new) (tbl d) = None"
  shows "upsertQuery d v = (Inr (seq d + 1, True), d\<lparr>seq := seq d + 1, tbl := tbl d @ [new]\<rparr>)"
  using assms by (simp add: upsertQuery_def Let_def)


lemma single_batch:
  assumes "fst (insertOptionsData pf d [opt]) = Inr summ"
  shows "\<exists>rid ins.
    upsertQuery d (values_of pf opt) = (Inr (rid, ins), snd (insertOptionsData pf d [opt])) \<and>
    summ = \<lparr> u_success = True, totalProcessed = 1,
              insertedCount = (if ins then 1 else 0), updatedCount = (if ins then 0 else 1),
              u_results = [\<lparr> res_id = rid, res_action = (if ins then ''inserted'' else ''updated'') \<rparr>] \<rparr>"
proof (cases "upsertQuery d (values_of pf opt)")
  case (Pair res d')
  show ?thesis
  proof (cases res)
    case (Inl e)
    with Pair assms show ?thesis by (simp add: insertOptionsData_def)
  next
    case (Inr x)
    obtain rid ins where x: "x = (rid, ins)" by (cases x)
    have l: "upsert_loop pf [opt] d [] 0 0 =
       (Inr ([\<lparr> res_id = rid, res_action = (if ins then ''inserted'' else ''updated'') \<rparr>],
             (if ins then 1 else 0), (if ins then 0 else 1)), d')"
      using Pair Inr x by simp
    have a: "snd (insertOptionsData pf d [opt]) = d'"
      unfolding insertOptionsData_def l by simp
    have "fst (insertOptionsData pf d [opt]) = Inr \<lparr> u_success = True, totalProcessed = 1,
              insertedCount = (if ins then 1 else 0), updatedCount = (if ins then 0 else 1),
              u_results = [\<lparr> res_id = rid, res_action = (if ins then ''inserted'' else ''updated'') \<rparr>] \<rparr>"
      unfolding insertOptionsData_def l by simp
    with assms have b: "summ = \<lparr> u_success = True, totalProcessed = 1,
              insertedCount = (if ins then 1 else 0), updatedCount = (if ins then 0 else 1),
              u_results = [\<lparr> res_id = rid, res_action = (if ins then ''inserted'' else ''updated'') \<rparr>] \<rparr>"
      by simp
    from Pair Inr x a have c: "upsertQuery d (values_of pf opt) = (Inr (rid, ins), snd (insertOptionsData pf d [opt]))"
      by simp
    from b c show ?thesis by blast
  qed
qed


lemma upsert_existing:
  assumes dist: "distinct (map option_symbol (tbl d))"
    and old: "old \<in> set (tbl d)"
    and key: "v_option_symbol (coerce v) = Some (option_symbol old)"
    and ok: "fst (upsertQuery d v) = Inr x"
  obtains new where "proposed (seq d + 1) v = Inr new"
    "upsertQuery d v = (Inr (id_col old, False),
             d\<lparr>seq := seq d + 1, tbl := map (\<lambda>r. if option_symbol r = option_symbol old
                                     then do_update new r else r) (tbl d)\<rparr>)"
proof -
  from upsertQuery_Inr[OF ok] obtain new where new: "proposed (seq d + 1) v = Inr new" .
  from proposed_Inr_fields[OF new] key have k: "option_symbol new = option_symbol old" by simp
  from find_key_distinct[OF dist old]
  have "find (\<lambda>r. option_symbol r = option_symbol new) (tbl d) = Some old" by (simp add: k)
  from upsertQuery_found[OF new this] new k that show ?thesis by simp
qed

lemma filter_map_update:
  assumes "option_symbol p = k"
  shows "filter (\<lambda>r. option_symbol r = k)
          (map (\<lambda>r. if option_symbol r = k then do_update p r else r) xs)
        = map (do_update p) (filter (\<lambda>r. option_symbol r = k) xs)"
  using assms by (induction xs) (simp_all add: do_update_def)

lemma do_update_fields:
  "ask (do_update p r) = ask p" "bid (do_update p r) = bid p" "mid (do_update p r) = mid p"
  "close (do_update p r) = close p" "high (do_update p r) = high p"
  "last_col (do_update p r) = last_col p" "low (do_update p r) = low p"
  "open_col (do_update p r) = open_col p" "previous_close (do_update p r) = previous_close p"
  "option_symbol (do_update p r) = option_symbol p" "timestamp (do_update p r) = timestamp p"
  "id_col (do_update p r) = id_col r" "symbol (do_update p r) = symbol r"
  "expiration_date (do_update p r) = expiration_date r" "strike (do_update p r) = strike r"
  "expiration_type (do_update p r) = expiration_type r" "option_type (do_update p r) = option_type r"
  by (simp_all add: do_update_def)

lemma coerce_values_fields:
  "v_ask (coerce (values_of pf opt)) = map_option decimal2 (price pf (o_ask opt))"
  "v_bid (coerce (values_of pf opt)) = map_option decimal2 (price pf (o_bid opt))"
  "v_mid (coerce (values_of pf opt)) = map_option decimal2 (price pf (o_mid opt))"
  "v_close (coerce (values_of pf opt)) = map_option decimal2 (price pf (o_close opt))"
  "v_high (coerce (values_of pf opt)) = map_option decimal2 (price pf (o_high opt))"
  "v_last (coerce (values_of pf opt)) = map_option decimal2 (price pf (o_last opt))"
  "v_low (coerce (values_of pf opt)) = map_option decimal2 (price pf (o_low opt))"
  "v_open (coerce (values_of pf opt)) = map_option decimal2 (price pf (o_open opt))"
  "v_previous_close (coerce (values_of pf opt))
     = map_option decimal2 (price pf (o_previous_close opt))"
  "v_option_symbol (coerce (values_of pf opt)) = stored_key opt"
  "v_timestamp (coerce (values_of pf opt)) = o_timestamp opt"
  by (simp_all add: coerce_def values_of_def stored_key_def)

lemma upsert_loop_append:
  "upsert_loop pf (xs @ ys) d acc i u =
     (case upsert_loop pf xs d acc i u of
        (Inl e, d') \<Rightarrow> (Inl e, d')
      | (Inr (acc', i', u'), d') \<Rightarrow> upsert_loop pf ys d' acc' i' u')"
proof (induction xs arbitrary: d acc i u)
  case Nil
  then show ?case by simp
next
  case (Cons a xs)
  show ?case
  proof (cases "upsertQuery d (values_of pf a)")
    case (Pair res d1)
    show ?thesis
    proof (cases res)
      case (Inl e)
      with Pair show ?thesis by simp
    next
      case (Inr x)
      obtain rid ins where "x = (rid, ins)" by (cases x)
      with Pair Inr Cons.IH show ?thesis by simp
    qed
  qed
qed

lemma upsertQuery_no_error:
  assumes "row_error v = None"
  shows "\<exists>x. fst (upsertQuery d v) = Inr x"
proof (cases "proposed (seq d + 1) v")
  case (Inl e)
  then have "row_error v = Some e" by (simp add: row_error_proposed[of v e "seq d + 1"])
  with assms show ?thesis by simp
next
  case (Inr new)
  show ?thesis
  proof (cases "find (\<lambda>r. option_symbol r = option_symbol new) (tbl d)")
    case None
    show ?thesis
      by (rule exI[of _ "(seq d + 1, True)"]) (simp add: upsertQuery_fresh[OF Inr None])
  next
    case (Some old)
    show ?thesis
      by (rule exI[of _ "(id_col old, False)"]) (simp add: upsertQuery_found[OF Inr Some])
  qed
qed

lemma upsert_loop_no_error:
  "\<forall>q\<in>set batch. row_error (values_of pf q) = None \<Longrightarrow>
   \<exists>y. fst (upsert_loop pf batch d acc i u) = Inr y"
proof (induction batch arbitrary: d acc i u)
  case Nil
  then show ?case by simp
next
  case (Cons q batch)
  then have "row_error (values_of pf q) = None" by simp
  from upsertQuery_no_error[OF this, of d] obtain x where
    x: "fst (upsertQuery d (values_of pf q)) = Inr x" by blast
  obtain rid ins where xx: "x = (rid, ins)" by (cases x)
  obtain d1 where q: "upsertQuery d (values_of pf q) = (Inr (rid, ins), d1)"
    using x xx by (cases "upsertQuery d (values_of pf q)") simp
  from Cons.prems have "\<forall>q\<in>set batch. row_error (values_of pf q) = None" by simp
  from Cons.IH[OF this] q show ?case by simp
qed

lemma upsert_loop_first_error:
  assumes "\<forall>q\<in>set pre. row_error (values_of pf q) = None"
    and "row_error (values_of pf opt) = Some e"
  shows "fst (upsert_loop pf (pre @ opt # post) d acc i u) = Inl e"
proof -
  from upsert_loop_no_error[OF assms(1), of d acc i u] obtain y where
    y: "fst (upsert_loop pf pre d acc i u) = Inr y" by blast
  obtain acc1 i1 u1 where yy: "y = (acc1, i1, u1)" by (cases y)
  obtain d1 where l: "upsert_loop pf pre d acc i u = (Inr (acc1, i1, u1), d1)"
    using y yy by (cases "upsert_loop pf pre d acc i u") simp
  from assms(2) have "proposed 0 (values_of pf opt) = Inl e"
    by (simp add: row_error_proposed[of _ _ 0])
  from upsertQuery_error[OF this, of d1]
  obtain d2 where "upsertQuery d1 (values_of pf opt) = (Inl e, d2)"
    by (cases "upsertQuery d1 (values_of pf opt)") simp
  then have "fst (upsert_loop pf (opt # post) d1 acc1 i1 u1) = Inl e" by simp
  then show ?thesis
    unfolding upsert_loop_append l by simp
qed

lemma insert_failure_rolls_back:
  assumes "fst (insertOptionsData pf d batch) = Inl e"
  shows "tbl (snd (insertOptionsData pf d batch)) = tbl d"
proof (cases "upsert_loop pf batch d [] 0 0")
  case (Pair res d')
  show ?thesis
  proof (cases res)
    case (Inl e1)
    with Pair show ?thesis by (simp add: insertOptionsData_def ROLLBACK_def)
  next
    case (Inr y)
    obtain acc i u where "y = (acc, i, u)" by (cases y)
    with Pair Inr assms show ?thesis by (simp add: insertOptionsData_def)
  qed
qed

lemma insert_error_of_loop:
  "fst (upsert_loop pf batch d [] 0 0) = Inl e \<Longrightarrow> fst (insertOptionsData pf d batch) = Inl e"
  by (cases "upsert_loop pf batch d [] 0 0") (simp add: insertOptionsData_def)

text \<open>
  Claim C2. If a record of the batch raises a row-level error (a value that its column
  rejects, or a violated \<^verbatim>\<open>NOT NULL\<close> or \<^verbatim>\<open>CHECK\<close> constraint), the
  call fails and the table holds exactly the rows it held before the call; the error
  returned is that of the first such record. Whenever the call fails, the rows are those
  before the call. The empty batch succeeds with all three counts zero and changes
  nothing.
\<close>

theorem C2_upsert_atomic:
  "(opt \<in> set batch \<and> row_error (values_of pf opt) = Some e \<longrightarrow>
      (\<exists>e'. fst (insertOptionsData pf d batch) = Inl e') \<and>
      tbl (snd (insertOptionsData pf d batch)) = tbl d)
   \<and> ((\<forall>q\<in>set pre. row_error (values_of pf q) = None)
        \<and> row_error (values_of pf opt) = Some e \<longrightarrow>
      fst (insertOptionsData pf d (pre @ opt # post)) = Inl e \<and>
      tbl (snd (insertOptionsData pf d (pre @ opt # post))) = tbl d)
   \<and> (fst (insertOptionsData pf d batch) = Inl e' \<longrightarrow>
      tbl (snd (insertOptionsData pf d batch)) = tbl d)
   \<and> insertOptionsData pf d [] =
      (Inr \<lparr> u_success = True, totalProcessed = 0, insertedCount = 0, updatedCount = 0,
              u_results = [] \<rparr>, d)"
proof (intro conjI impI)
  assume a: "opt \<in> set batch \<and> row_error (values_of pf opt) = Some e"
  then have "proposed 0 (values_of pf opt) = Inl e"
    by (simp add: row_error_proposed[of _ _ 0])
  with a obtain e1 where "fst (upsert_loop pf batch d [] 0 0) = Inl e1"
    using upsert_loop_error by blast
  then have f: "fst (insertOptionsData pf d batch) = Inl e1" by (rule insert_error_of_loop)
  then show "\<exists>e'. fst (insertOptionsData pf d batch) = Inl e'" by blast
  from f show "tbl (snd (insertOptionsData pf d batch)) = tbl d"
    by (rule insert_failure_rolls_back)
next
  assume a: "(\<forall>q\<in>set pre. row_error (values_of pf q) = None)
        \<and> row_error (values_of pf opt) = Some e"
  then have "fst (upsert_loop pf (pre @ opt # post) d [] 0 0) = Inl e"
    using upsert_loop_first_error by blast
  then show f: "fst (insertOptionsData pf d (pre @ opt # post)) = Inl e"
    by (rule insert_error_of_loop)
  then show "tbl (snd (insertOptionsData pf d (pre @ opt # post))) = tbl d"
    by (rule insert_failure_rolls_back)
next
  assume "fst (insertOptionsData pf d batch) = Inl e'"
  then show "tbl (snd (insertOptionsData pf d batch)) = tbl d"
    by (rule insert_failure_rolls_back)
next
  show "insertOptionsData pf d [] =
      (Inr \<lparr> u_success = True, totalProcessed = 0, insertedCount = 0, updatedCount = 0,
              u_results = [] \<rparr>, d)"
    by (simp add: insertOptionsData_def)
qed


lemma floor_rat_numeral: "\<lfloor>(numeral a :: rat) / numeral b\<rfloor> = numeral a div numeral b"
  using floor_divide_of_int_eq[of "numeral a" "numeral b", where ?'a = rat] by simp

lemma floor_rat_one: "\<lfloor>(1 :: rat) / numeral b\<rfloor> = 1 div numeral b"
  using floor_divide_of_int_eq[of 1 "numeral b", where ?'a = rat] by simp

lemmas example_defs =
  quote_ex_def quote_again_def quote_bad_def quote_fine_def quote_overflow_def quote_long_def
  quote_other_def row_ex_def db_empty_def db_one_def parse_ex_def

lemmas upsert_defs =
  insertOptionsData_def upsertQuery_def values_of_def proposed_def constrain_def coerce_def
  coercion_error_def decimal_error_def varchar_error_def stored_text_def round2_def
  floor_rat_numeral floor_rat_one price_def underlyingSymbol_def do_update_def ROLLBACK_def Let_def

lemma reupsert_again_ex:
  "insertOptionsData parse_ex db_one [quote_again] =
     (Inr \<lparr> u_success = True, totalProcessed = 1, insertedCount = 0, updatedCount = 1,
            u_results = [\<lparr> res_id = 1, res_action = ''updated'' \<rparr>] \<rparr>,
      \<lparr> tbl = [row_ex\<lparr> ask := None, bid := Some (Fin 0), mid := Some (Fin 5),
                        timestamp := 2000 \<rparr>], seq = 2 \<rparr>)"
  by (simp add: upsert_defs example_defs)

theorem C2_upsert_atomic_witness:
  "row_error (values_of parse_ex quote_again) = None
   \<and> row_error (values_of parse_ex quote_bad) = Some (NotNullViolation ''symbol'')
   \<and> quote_bad \<in> set ([quote_again] @ quote_bad # [quote_other])
   \<and> fst (insertOptionsData parse_ex db_one ([quote_again] @ quote_bad # [quote_other]))
       = Inl (NotNullViolation ''symbol'')
   \<and> tbl (snd (insertOptionsData parse_ex db_one ([quote_again] @ quote_bad # [quote_other])))
       = tbl db_one
   \<and> tbl (snd (insertOptionsData parse_ex db_one [quote_again])) \<noteq> tbl db_one"
proof -
  have h1: "\<forall>q\<in>set [quote_again]. row_error (values_of parse_ex q) = None"
    by (simp add: row_error_def upsert_defs example_defs)
  have h2: "row_error (values_of parse_ex quote_bad) = Some (NotNullViolation ''symbol'')"
    by (simp add: row_error_def upsert_defs example_defs)
  have h3: "quote_bad \<in> set ([quote_again] @ quote_bad # [quote_other])" by simp
  note t = C2_upsert_atomic[where opt = quote_bad
      and batch = "[quote_again] @ quote_bad # [quote_other]" and pf = parse_ex
      and e = "NotNullViolation ''symbol''" and d = db_one and pre = "[quote_again]"
      and post = "[quote_other]" and e' = "NotNullViolation ''symbol''"]
  from t h1 h2
  have c: "fst (insertOptionsData parse_ex db_one ([quote_again] @ quote_bad # [quote_other]))
       = Inl (NotNullViolation ''symbol'')
     \<and> tbl (snd (insertOptionsData parse_ex db_one ([quote_again] @ quote_bad # [quote_other])))
       = tbl db_one"
    by blast
  from t h2 h3
  have "\<exists>e'. fst (insertOptionsData parse_ex db_one
                       ([quote_again] @ quote_bad # [quote_other])) = Inl e'"
    by blast
  from t c
  have "tbl (snd (insertOptionsData parse_ex db_one ([quote_again] @ quote_bad # [quote_other])))
       = tbl db_one"
    by blast
  have n: "tbl (snd (insertOptionsData parse_ex db_one [quote_again])) \<noteq> tbl db_one"
    unfolding reupsert_again_ex by (simp add: db_one_def row_ex_def)
  from h1 have "row_error (values_of parse_ex quote_again) = None" by simp
  with h2 h3 c n show ?thesis by (intro conjI) simp_all
qed

text \<open>
  A value that its column rejects rolls the batch back as well: a strike that overflows
  \<^verbatim>\<open>DECIMAL(10,2)\<close>, an expiration type longer than \<^verbatim>\<open>VARCHAR(20)\<close>.
\<close>

lemma overflow_rolls_back_ex:
  "insertOptionsData parse_ex db_one [quote_again, quote_overflow]
     = (Inl NumericOverflow, \<lparr> tbl = [row_ex], seq = 3 \<rparr>)"
  by (simp add: upsert_defs example_defs)

lemma too_long_rolls_back_ex:
  "insertOptionsData parse_ex db_one [quote_again, quote_long]
     = (Inl (StringTooLong 20), \<lparr> tbl = [row_ex], seq = 3 \<rparr>)"
  by (simp add: upsert_defs example_defs)

lemma map_key_update:
  "option_symbol new = k \<Longrightarrow>
   map option_symbol (map (\<lambda>r. if option_symbol r = k then do_update new r else r) xs)
     = map option_symbol xs"
  by (induction xs) (simp_all add: do_update_fields)

lemma upsertQuery_distinct:
  assumes "distinct (map option_symbol (tbl d))"
  shows "distinct (map option_symbol (tbl (snd (upsertQuery d v))))"
proof (cases "proposed (seq d + 1) v")
  case (Inl e)
  with assms show ?thesis by (simp add: upsertQuery_def Let_def)
next
  case (Inr new)
  show ?thesis
  proof (cases "find (\<lambda>r. option_symbol r = option_symbol new) (tbl d)")
    case None
    then have "option_symbol new \<notin> option_symbol ` set (tbl d)"
      by (auto simp: find_None_iff)
    with assms show ?thesis
      by (simp add: upsertQuery_fresh[OF Inr None])
  next
    case (Some old)
    have t: "tbl (snd (upsertQuery d v)) =
        map (\<lambda>r. if option_symbol r = option_symbol new then do_update new r else r) (tbl d)"
      by (simp add: upsertQuery_found[OF Inr Some])
    show ?thesis
      unfolding t map_key_update[OF refl] by (rule assms)
  qed
qed

lemma upsert_loop_distinct:
  "distinct (map option_symbol (tbl d)) \<Longrightarrow>
   distinct (map option_symbol (tbl (snd (upsert_loop pf batch d acc i u))))"
proof (induction batch arbitrary: d acc i u)
  case Nil
  then show ?case by simp
next
  case (Cons q batch)
  show ?case
  proof (cases "upsertQuery d (values_of pf q)")
    case (Pair res d1)
    from upsertQuery_distinct[OF Cons.prems, of "values_of pf q"] Pair
    have d1: "distinct (map option_symbol (tbl d1))" by simp
    show ?thesis
    proof (cases res)
      case (Inl e)
      with Pair d1 show ?thesis by simp
    next
      case (Inr x)
      obtain rid ins where "x = (rid, ins)" by (cases x)
      with Pair Inr Cons.IH[OF d1] show ?thesis by simp
    qed
  qed
qed

text \<open>
  The option symbol stays a key of the table: ingestion and cleanup keep it unique.
\<close>

lemma insertOptionsData_distinct:
  assumes "distinct (map option_symbol (tbl d))"
  shows "distinct (map option_symbol (tbl (snd (insertOptionsData pf d batch))))"
proof (cases "upsert_loop pf batch d [] 0 0")
  case (Pair res d')
  from upsert_loop_distinct[OF assms, of pf batch "[]" 0 0] Pair
  have d': "distinct (map option_symbol (tbl d'))" by simp
  show ?thesis
  proof (cases res)
    case (Inl e)
    with Pair assms show ?thesis by (simp add: insertOptionsData_def ROLLBACK_def)
  next
    case (Inr y)
    obtain acc i u where "y = (acc, i, u)" by (cases y)
    with Pair Inr d' show ?thesis by (simp add: insertOptionsData_def)
  qed
qed

lemma first_upsert_ex:
  "insertOptionsData parse_ex db_empty [quote_ex] =
     (Inr \<lparr> u_success = True, totalProcessed = 1, insertedCount = 1, updatedCount = 0,
            u_results = [\<lparr> res_id = 1, res_action = ''inserted'' \<rparr>] \<rparr>, db_one)"
  by (simp add: upsert_defs example_defs)


lemma do_update_kept: "kept_columns (do_update p r) = kept_columns r"
  by (simp add: kept_columns_def do_update_fields)

lemma upsertQuery_kept:
  assumes "old \<in> set (tbl d)"
  shows "\<exists>old'\<in>set (tbl (snd (upsertQuery d v))).
           option_symbol old' = option_symbol old \<and> kept_columns old' = kept_columns old"
proof (cases "proposed (seq d + 1) v")
  case (Inl e)
  then have "tbl (snd (upsertQuery d v)) = tbl d"
    by (simp add: upsertQuery_def Let_def)
  with assms show ?thesis by auto
next
  case (Inr new)
  show ?thesis
  proof (cases "find (\<lambda>r. option_symbol r = option_symbol new) (tbl d)")
    case None
    have "tbl (snd (upsertQuery d v)) = tbl d @ [new]"
      by (simp add: upsertQuery_fresh[OF Inr None])
    with assms show ?thesis by auto
  next
    case (Some found)
    let ?f = "\<lambda>r. if option_symbol r = option_symbol new then do_update new r else r"
    have t: "tbl (snd (upsertQuery d v)) = map ?f (tbl d)"
      by (simp add: upsertQuery_found[OF Inr Some])
    have m: "?f old \<in> set (tbl (snd (upsertQuery d v)))"
      unfolding t set_map using assms by (rule imageI)
    have "option_symbol (?f old) = option_symbol old \<and> kept_columns (?f old) = kept_columns old"
      by (simp add: do_update_fields do_update_kept)
    with m show ?thesis by blast
  qed
qed

lemma upsert_loop_kept:
  "old \<in> set (tbl d) \<Longrightarrow>
   \<exists>old'\<in>set (tbl (snd (upsert_loop pf batch d acc i u))).
      option_symbol old' = option_symbol old \<and> kept_columns old' = kept_columns old"
proof (induction batch arbitrary: d acc i u old)
  case Nil
  then show ?case by auto
next
  case (Cons q batch)
  show ?case
  proof (cases "upsertQuery d (values_of pf q)")
    case (Pair res d1)
    from upsertQuery_kept[OF Cons.prems, of "values_of pf q"] Pair obtain old1 where
      o1: "old1 \<in> set (tbl d1)" "option_symbol old1 = option_symbol old"
        "kept_columns old1 = kept_columns old" by auto
    show ?thesis
    proof (cases res)
      case (Inl e)
      with Pair o1 show ?thesis by auto
    next
      case (Inr x)
      obtain rid ins where x: "x = (rid, ins)" by (cases x)
      let ?acc = "acc @ [\<lparr> res_id = rid,
                      res_action = (if ins then ''inserted'' else ''updated'') \<rparr>]"
      let ?i = "if ins then i + 1 else i"
      let ?u = "if ins then u else u + 1"
      have step: "upsert_loop pf (q # batch) d acc i u = upsert_loop pf batch d1 ?acc ?i ?u"
        using Pair Inr x by simp
      from Cons.IH[OF o1(1), of ?acc ?i ?u] obtain old2 where
        "old2 \<in> set (tbl (snd (upsert_loop pf batch d1 ?acc ?i ?u)))"
        "option_symbol old2 = option_symbol old1" "kept_columns old2 = kept_columns old1"
        by blast
      with o1 show ?thesis unfolding step by auto
    qed
  qed
qed

lemma upsert_loop_results:
  "upsert_loop pf batch d acc i u = (Inr (acc', i', u'), d') \<Longrightarrow>
   \<exists>es. acc' = acc @ es \<and> length es = length batch"
proof (induction batch arbitrary: d acc i u)
  case Nil
  then show ?case by simp
next
  case (Cons q batch)
  show ?case
  proof (cases "upsertQuery d (values_of pf q)")
    case (Pair res d1)
    show ?thesis
    proof (cases res)
      case (Inl e)
      with Pair Cons.prems show ?thesis by simp
    next
      case (Inr x)
      obtain rid ins where x: "x = (rid, ins)" by (cases x)
      let ?e = "\<lparr> res_id = rid, res_action = (if ins then ''inserted'' else ''updated'') \<rparr>"
      let ?i = "if ins then i + 1 else i"
      let ?u = "if ins then u else u + 1"
      have step: "upsert_loop pf (q # batch) d acc i u = upsert_loop pf batch d1 (acc @ [?e]) ?i ?u"
        using Pair Inr x by simp
      from Cons.prems have "upsert_loop pf batch d1 (acc @ [?e]) ?i ?u = (Inr (acc', i', u'), d')"
        unfolding step .
      from Cons.IH[OF this] obtain es where
        es: "acc' = (acc @ [?e]) @ es" "length es = length batch" by blast
      have "acc' = acc @ (?e # es) \<and> length (?e # es) = length (q # batch)"
        using es by simp
      then show ?thesis by blast
    qed
  qed
qed

lemma filter_map_other_key:
  "option_symbol new = k' \<Longrightarrow> k' \<noteq> k \<Longrightarrow>
   filter (\<lambda>r. option_symbol r = k)
     (map (\<lambda>r. if option_symbol r = k' then do_update new r else r) xs)
   = filter (\<lambda>r. option_symbol r = k) xs"
  by (induction xs) (simp_all add: do_update_fields)

lemma upsertQuery_other_key:
  assumes ok: "fst (upsertQuery d v) = Inr x"
    and key: "v_option_symbol (coerce v) = Some k'"
    and ne: "k' \<noteq> k"
  shows "filter (\<lambda>r. option_symbol r = k) (tbl (snd (upsertQuery d v)))
       = filter (\<lambda>r. option_symbol r = k) (tbl d)"
proof -
  from upsertQuery_Inr[OF ok] obtain new where new: "proposed (seq d + 1) v = Inr new" .
  from proposed_Inr_fields[OF new] key have nk: "option_symbol new = k'" by simp
  show ?thesis
  proof (cases "find (\<lambda>r. option_symbol r = option_symbol new) (tbl d)")
    case None
    have t: "tbl (snd (upsertQuery d v)) = tbl d @ [new]"
      by (simp add: upsertQuery_fresh[OF new None])
    show ?thesis unfolding t using nk ne by simp
  next
    case (Some old)
    have t: "tbl (snd (upsertQuery d v)) =
        map (\<lambda>r. if option_symbol r = k' then do_update new r else r) (tbl d)"
      by (simp add: upsertQuery_found[OF new Some] nk)
    show ?thesis unfolding t by (rule filter_map_other_key[OF nk ne])
  qed
qed

lemma upsert_loop_other_keys:
  assumes "fst (upsert_loop pf post d acc i u) = Inr y"
    and "\<forall>q\<in>set post. stored_key q \<noteq> Some k"
  shows "filter (\<lambda>r. option_symbol r = k) (tbl (snd (upsert_loop pf post d acc i u)))
       = filter (\<lambda>r. option_symbol r = k) (tbl d)"
  using assms
proof (induction post arbitrary: d acc i u)
  case Nil
  then show ?case by simp
next
  case (Cons q post)
  show ?case
  proof (cases "upsertQuery d (values_of pf q)")
    case (Pair res d1)
    show ?thesis
    proof (cases res)
      case (Inl e)
      with Pair Cons.prems(1) show ?thesis by simp
    next
      case (Inr x)
      obtain rid ins where x: "x = (rid, ins)" by (cases x)
      from Pair Inr have ok: "fst (upsertQuery d (values_of pf q)) = Inr x" by simp
      from upsertQuery_Inr[OF ok] obtain new where
        new: "proposed (seq d + 1) (values_of pf q) = Inr new" .
      from proposed_Inr_fields[OF new]
      have key: "v_option_symbol (coerce (values_of pf q)) = Some (option_symbol new)"
        by simp
      then have "stored_key q = Some (option_symbol new)"
        by (simp add: coerce_values_fields)
      with Cons.prems(2) have ne: "option_symbol new \<noteq> k" by auto
      from upsertQuery_other_key[OF ok key ne] Pair
      have one: "filter (\<lambda>r. option_symbol r = k) (tbl d1)
               = filter (\<lambda>r. option_symbol r = k) (tbl d)" by simp
      let ?acc = "acc @ [\<lparr> res_id = rid,
                      res_action = (if ins then ''inserted'' else ''updated'') \<rparr>]"
      let ?i = "if ins then i + 1 else i"
      let ?u = "if ins then u else u + 1"
      have step: "upsert_loop pf (q # post) d acc i u = upsert_loop pf post d1 ?acc ?i ?u"
        using Pair Inr x by simp
      from Cons.prems(1) have ok': "fst (upsert_loop pf post d1 ?acc ?i ?u) = Inr y"
        unfolding step .
      from Cons.prems(2) have rest: "\<forall>q\<in>set post. stored_key q \<noteq> Some k" by simp
      show ?thesis
        unfolding step Cons.IH[OF ok' rest] one ..
    qed
  qed
qed

lemma stores_price: "stores pf v (map_option decimal2 (price pf v))"
proof (cases v)
  case JNull
  then show ?thesis by (simp add: stores_def price_def)
next
  case (JNum x)
  then show ?thesis by (simp add: stores_def price_def)
next
  case (JStr str)
  then show ?thesis by (cases "pf str") (simp_all add: stores_def price_def)
qed

lemma proposed_prices:
  "proposed i v = Inr r \<Longrightarrow> row_prices r = bound_prices (coerce v)"
  by (drule proposed_Inr_fields) (simp add: row_prices_def bound_prices_def)

lemma do_update_prices: "row_prices (do_update p r) = row_prices p"
  by (simp add: row_prices_def do_update_fields)

lemma bound_prices_stores:
  "row_prices r = bound_prices (coerce (values_of pf opt)) \<Longrightarrow>
     stores pf (o_ask opt) (ask r) \<and> stores pf (o_bid opt) (bid r)
     \<and> stores pf (o_mid opt) (mid r) \<and> stores pf (o_close opt) (close r)
     \<and> stores pf (o_high opt) (high r) \<and> stores pf (o_last opt) (last_col r)
     \<and> stores pf (o_low opt) (low r) \<and> stores pf (o_open opt) (open_col r)
     \<and> stores pf (o_previous_close opt) (previous_close r)"
  by (simp add: row_prices_def bound_prices_def coerce_values_fields stores_price)


lemma insert_ok_loop:
  assumes "fst (insertOptionsData pf d b) = Inr summ"
  shows "\<exists>i u. upsert_loop pf b d [] 0 0
            = (Inr (u_results summ, i, u), snd (insertOptionsData pf d b))"
proof (cases "upsert_loop pf b d [] 0 0")
  case (Pair res d')
  show ?thesis
  proof (cases res)
    case (Inl e)
    with Pair assms show ?thesis by (simp add: insertOptionsData_def)
  next
    case (Inr y)
    obtain acc i u where y: "y = (acc, i, u)" by (cases y)
    have l: "upsert_loop pf b d [] 0 0 = (Inr (acc, i, u), d')"
      using Pair Inr y by simp
    have "fst (insertOptionsData pf d b) = Inr \<lparr> u_success = True, totalProcessed = length acc,
                 insertedCount = i, updatedCount = u, u_results = acc \<rparr>"
      unfolding insertOptionsData_def l by simp
    with assms have "summ = \<lparr> u_success = True, totalProcessed = length acc,
                 insertedCount = i, updatedCount = u, u_results = acc \<rparr>" by simp
    then have a: "u_results summ = acc" by simp
    have s: "snd (insertOptionsData pf d b) = d'"
      unfolding insertOptionsData_def l by simp
    from l s a show ?thesis by simp
  qed
qed

lemma upsert_loop_split:
  assumes "upsert_loop pf (pre @ opt # post) d acc i u = (Inr y, d')"
  obtains acc1 i1 u1 d1 rid ins d2 where
    "upsert_loop pf pre d acc i u = (Inr (acc1, i1, u1), d1)"
    "upsertQuery d1 (values_of pf opt) = (Inr (rid, ins), d2)"
    "upsert_loop pf post d2
       (acc1 @ [\<lparr> res_id = rid, res_action = (if ins then ''inserted'' else ''updated'') \<rparr>])
       (if ins then i1 + 1 else i1) (if ins then u1 else u1 + 1) = (Inr y, d')"
proof (cases "upsert_loop pf pre d acc i u")
  case (Pair res d1)
  show ?thesis
  proof (cases res)
    case (Inl e)
    with Pair assms show ?thesis by (simp add: upsert_loop_append)
  next
    case (Inr y1)
    obtain acc1 i1 u1 where y1: "y1 = (acc1, i1, u1)" by (cases y1)
    have l1: "upsert_loop pf pre d acc i u = (Inr (acc1, i1, u1), d1)"
      using Pair Inr y1 by simp
    have l2: "upsert_loop pf (opt # post) d1 acc1 i1 u1 = (Inr y, d')"
      using assms unfolding upsert_loop_append l1 by simp
    show ?thesis
    proof (cases "upsertQuery d1 (values_of pf opt)")
      case (Pair res2 d2)
      show ?thesis
      proof (cases res2)
        case (Inl e)
        with Pair l2 show ?thesis by simp
      next
        case (Inr x)
        obtain rid ins where x: "x = (rid, ins)" by (cases x)
        have q: "upsertQuery d1 (values_of pf opt) = (Inr (rid, ins), d2)"
          using Pair Inr x by simp
        have "upsert_loop pf post d2
           (acc1 @ [\<lparr> res_id = rid, res_action = (if ins then ''inserted'' else ''updated'') \<rparr>])
           (if ins then i1 + 1 else i1) (if ins then u1 else u1 + 1) = (Inr y, d')"
          using l2 q by simp
        with l1 q that show ?thesis by blast
      qed
    qed
  qed
qed

text \<open>
  Claim C3. Let a row with the option symbol of a record be stored (option symbols being
  unique in the table, as ingestion keeps them), and let a batch containing the record at
  any position succeed. Then exactly one row with that symbol is stored afterwards, the
  outcome reported for the record carries the id of the stored row and the action
  \<^verbatim>\<open>updated\<close>, the batch reports one outcome per record, and the id, the
  underlying symbol, the expiration date, the strike, the expiration type and the option
  type of the row are those stored before the batch. If the record is the last of the
  batch with its symbol, each of the nine prices of the row is the record's price rounded
  to two decimals, as the column type \<^verbatim>\<open>DECIMAL(10,2)\<close> stores it, and
  the timestamp of the row is the record's.
\<close>

theorem C3_reupsert_replaces:
  assumes dist: "distinct (map option_symbol (tbl d))"
    and old: "old \<in> set (tbl d)"
    and key: "stored_key opt = Some (option_symbol old)"
    and ok: "fst (insertOptionsData pf d (pre @ opt # post)) = Inr summ"
  shows "\<exists>new. filter (\<lambda>r. option_symbol r = option_symbol old)
                  (tbl (snd (insertOptionsData pf d (pre @ opt # post)))) = [new]
           \<and> u_results summ ! length pre = \<lparr> res_id = id_col old, res_action = ''updated'' \<rparr>
           \<and> length (u_results summ) = length (pre @ opt # post)
           \<and> id_col new = id_col old \<and> symbol new = symbol old
           \<and> expiration_date new = expiration_date old \<and> strike new = strike old
           \<and> expiration_type new = expiration_type old \<and> option_type new = option_type old
           \<and> ((\<forall>q\<in>set post. stored_key q \<noteq> Some (option_symbol old)) \<longrightarrow>
                stores pf (o_ask opt) (ask new) \<and> stores pf (o_bid opt) (bid new)
                \<and> stores pf (o_mid opt) (mid new) \<and> stores pf (o_close opt) (close new)
                \<and> stores pf (o_high opt) (high new) \<and> stores pf (o_last opt) (last_col new)
                \<and> stores pf (o_low opt) (low new) \<and> stores pf (o_open opt) (open_col new)
                \<and> stores pf (o_previous_close opt) (previous_close new)
                \<and> o_timestamp opt = Some (timestamp new))"
proof -
  let ?k = "option_symbol old"
  let ?v = "values_of pf opt"
  let ?d' = "snd (insertOptionsData pf d (pre @ opt # post))"
  from insert_ok_loop[OF ok] obtain i u where
    l: "upsert_loop pf (pre @ opt # post) d [] 0 0 = (Inr (u_results summ, i, u), ?d')"
    by blast
  from upsert_loop_split[OF l] obtain acc1 i1 u1 d1 rid ins d2 where
    l1: "upsert_loop pf pre d [] 0 0 = (Inr (acc1, i1, u1), d1)"
    and q: "upsertQuery d1 ?v = (Inr (rid, ins), d2)"
    and l2: "upsert_loop pf post d2
       (acc1 @ [\<lparr> res_id = rid, res_action = (if ins then ''inserted'' else ''updated'') \<rparr>])
       (if ins then i1 + 1 else i1) (if ins then u1 else u1 + 1)
       = (Inr (u_results summ, i, u), ?d')" .
  let ?e = "\<lparr> res_id = rid, res_action = (if ins then ''inserted'' else ''updated'') \<rparr>"
  let ?i = "if ins then i1 + 1 else i1"
  let ?u = "if ins then u1 else u1 + 1"
  \<comment> \<open>the records before\<close>
  from upsert_loop_results[OF l1] have n1: "length acc1 = length pre" by auto
  from upsert_loop_distinct[OF dist, of pf pre "[]" 0 0] l1
  have dist1: "distinct (map option_symbol (tbl d1))" by simp
  from upsert_loop_kept[OF old, of pf pre "[]" 0 0] l1 obtain old1 where
    o1: "old1 \<in> set (tbl d1)" "option_symbol old1 = ?k" "kept_columns old1 = kept_columns old"
    by auto
  \<comment> \<open>the record itself\<close>
  have key1: "v_option_symbol (coerce ?v) = Some (option_symbol old1)"
    using key o1(2) by (simp add: coerce_values_fields)
  from q have "fst (upsertQuery d1 ?v) = Inr (rid, ins)" by simp
  from upsert_existing[OF dist1 o1(1) key1 this] obtain p where
    p: "proposed (seq d1 + 1) ?v = Inr p"
    and q': "upsertQuery d1 ?v = (Inr (id_col old1, False),
             d1\<lparr>seq := seq d1 + 1, tbl := map (\<lambda>r. if option_symbol r = option_symbol old1
                                     then do_update p r else r) (tbl d1)\<rparr>)" by blast
  note pfs = proposed_Inr_fields[OF p]
  from pfs key1 have pk: "option_symbol p = option_symbol old1" by simp
  from q q' have rid: "rid = id_col old1" and ins: "ins = False"
    and d2: "d2 = d1\<lparr>seq := seq d1 + 1, tbl := map (\<lambda>r. if option_symbol r = option_symbol old1
                                     then do_update p r else r) (tbl d1)\<rparr>" by simp_all
  have f2: "filter (\<lambda>r. option_symbol r = ?k) (tbl d2) = [do_update p old1]"
    using filter_map_update[OF pk, of "tbl d1"] filter_key_distinct[OF dist1 o1(1)]
    by (simp add: d2 o1(2))
  then have "do_update p old1 \<in> set (filter (\<lambda>r. option_symbol r = ?k) (tbl d2))" by simp
  then have m2: "do_update p old1 \<in> set (tbl d2)" by simp
  have dist2: "distinct (map option_symbol (tbl d2))"
    using upsert_loop_distinct[OF dist1, of pf "[opt]" acc1 i1 u1] q by simp
  \<comment> \<open>the records after\<close>
  from upsert_loop_distinct[OF dist2, of pf post "acc1 @ [?e]" ?i ?u] l2
  have dist': "distinct (map option_symbol (tbl ?d'))" by simp
  from upsert_loop_kept[OF m2, of pf post "acc1 @ [?e]" ?i ?u] l2 obtain new where
    n: "new \<in> set (tbl ?d')" "option_symbol new = option_symbol (do_update p old1)"
      "kept_columns new = kept_columns (do_update p old1)" by auto
  have nk: "option_symbol new = ?k" using n(2) pk o1(2) by (simp add: do_update_fields)
  have f: "filter (\<lambda>r. option_symbol r = ?k) (tbl ?d') = [new]"
    using filter_key_distinct[OF dist' n(1)] by (simp add: nk)
  have kept: "kept_columns new = kept_columns old"
    using n(3) o1(3) by (simp add: do_update_kept)
  then have un: "id_col new = id_col old" "symbol new = symbol old"
    "expiration_date new = expiration_date old" "strike new = strike old"
    "expiration_type new = expiration_type old" "option_type new = option_type old"
    by (simp_all add: kept_columns_def)
  \<comment> \<open>the outcomes\<close>
  from upsert_loop_results[OF l2] obtain es where
    es: "u_results summ = (acc1 @ [?e]) @ es" "length es = length post" by blast
  have "u_results summ ! length pre = ?e"
    unfolding es(1) using n1 by (simp add: nth_append)
  moreover have "id_col old1 = id_col old" using o1(3) by (simp add: kept_columns_def)
  ultimately have r: "u_results summ ! length pre
      = \<lparr> res_id = id_col old, res_action = ''updated'' \<rparr>"
    by (simp add: rid ins)
  have len: "length (u_results summ) = length (pre @ opt # post)"
    unfolding es(1) using n1 es(2) by simp
  \<comment> \<open>the values, when no later record has the symbol\<close>
  have vals: "stores pf (o_ask opt) (ask new) \<and> stores pf (o_bid opt) (bid new)
                \<and> stores pf (o_mid opt) (mid new) \<and> stores pf (o_close opt) (close new)
                \<and> stores pf (o_high opt) (high new) \<and> stores pf (o_last opt) (last_col new)
                \<and> stores pf (o_low opt) (low new) \<and> stores pf (o_open opt) (open_col new)
                \<and> stores pf (o_previous_close opt) (previous_close new)
                \<and> o_timestamp opt = Some (timestamp new)"
    if last: "\<forall>q\<in>set post. stored_key q \<noteq> Some ?k"
  proof -
    from l2 have "fst (upsert_loop pf post d2 (acc1 @ [?e]) ?i ?u) = Inr (u_results summ, i, u)"
      by simp
    from upsert_loop_other_keys[OF this last] l2
    have "filter (\<lambda>r. option_symbol r = ?k) (tbl ?d')
        = filter (\<lambda>r. option_symbol r = ?k) (tbl d2)" by simp
    with f f2 have new: "new = do_update p old1" by simp
    have "row_prices new = bound_prices (coerce ?v)"
      unfolding new do_update_prices by (rule proposed_prices[OF p])
    from bound_prices_stores[OF this]
    have a: "stores pf (o_ask opt) (ask new) \<and> stores pf (o_bid opt) (bid new)
     \<and> stores pf (o_mid opt) (mid new) \<and> stores pf (o_close opt) (close new)
     \<and> stores pf (o_high opt) (high new) \<and> stores pf (o_last opt) (last_col new)
     \<and> stores pf (o_low opt) (low new) \<and> stores pf (o_open opt) (open_col new)
     \<and> stores pf (o_previous_close opt) (previous_close new)" .
    have "o_timestamp opt = Some (timestamp new)"
      using pfs by (simp add: new do_update_fields coerce_values_fields)
    with a show ?thesis by simp
  qed
  from f r len un vals show ?thesis by blast
qed


theorem C3_reupsert_replaces_witness:
  "distinct (map option_symbol (tbl db_one)) \<and> row_ex \<in> set (tbl db_one)
   \<and> stored_key quote_fine = Some (option_symbol row_ex)
   \<and> stored_key quote_other \<noteq> Some (option_symbol row_ex)
   \<and> fst (insertOptionsData parse_ex db_one ([quote_again] @ quote_fine # [quote_other])) =
       Inr \<lparr> u_success = True, totalProcessed = 3, insertedCount = 1, updatedCount = 2,
             u_results = [\<lparr> res_id = 1, res_action = ''updated'' \<rparr>,
                          \<lparr> res_id = 1, res_action = ''updated'' \<rparr>,
                          \<lparr> res_id = 4, res_action = ''inserted'' \<rparr>] \<rparr>
   \<and> (\<exists>new. filter (\<lambda>r. option_symbol r = option_symbol row_ex)
               (tbl (snd (insertOptionsData parse_ex db_one
                            ([quote_again] @ quote_fine # [quote_other])))) = [new]
           \<and> ask new = Some (Fin (101 / 100)) \<and> bid new = Some (Fin 1)
           \<and> close new = None \<and> timestamp new = 2000
           \<and> id_col new = 1 \<and> strike new = Fin 100 \<and> option_type new = ''Call'')"
proof -
  let ?batch = "[quote_again] @ quote_fine # [quote_other]"
  let ?summ = "\<lparr> u_success = True, totalProcessed = 3, insertedCount = 1, updatedCount = 2,
             u_results = [\<lparr> res_id = 1, res_action = ''updated'' \<rparr>,
                          \<lparr> res_id = 1, res_action = ''updated'' \<rparr>,
                          \<lparr> res_id = 4, res_action = ''inserted'' \<rparr>] \<rparr>"
  have h1: "distinct (map option_symbol (tbl db_one))" by (simp add: example_defs)
  have h2: "row_ex \<in> set (tbl db_one)" by (simp add: db_one_def)
  have h3: "stored_key quote_fine = Some (option_symbol row_ex)"
    by (simp add: example_defs stored_key_def stored_text_def)
  have h5: "stored_key quote_other \<noteq> Some (option_symbol row_ex)"
    by (simp add: example_defs stored_key_def stored_text_def)
  have h4: "fst (insertOptionsData parse_ex db_one ?batch) = Inr ?summ"
    by (simp add: upsert_defs example_defs)
  from h5 have h6: "\<forall>q\<in>set [quote_other]. stored_key q \<noteq> Some (option_symbol row_ex)"
    by simp
  from C3_reupsert_replaces[OF h1 h2 h3 h4] h6 obtain new where
    n: "filter (\<lambda>r. option_symbol r = option_symbol row_ex)
          (tbl (snd (insertOptionsData parse_ex db_one ?batch))) = [new]"
    and k: "id_col new = id_col row_ex" "strike new = strike row_ex"
      "option_type new = option_type row_ex"
    and v: "stores parse_ex (o_ask quote_fine) (ask new)"
      "stores parse_ex (o_bid quote_fine) (bid new)"
      "stores parse_ex (o_close quote_fine) (close new)"
      "o_timestamp quote_fine = Some (timestamp new)"
    by blast
  from k have k': "id_col new = 1 \<and> strike new = Fin 100 \<and> option_type new = ''Call''"
    by (simp add: example_defs)
  from v have v': "ask new = Some (Fin (101 / 100)) \<and> bid new = Some (Fin 1)
           \<and> close new = None \<and> timestamp new = 2000"
    by (simp add: example_defs stores_def round2_def floor_rat_numeral floor_rat_one)
  from n k' v' h1 h2 h3 h4 h5 show ?thesis by blast
qed

text \<open>
  Claim C3 as stated fails on a price with more than two decimals: the ask of
  \<open>quote_fine\<close> is 1.005, and after its upsert onto the stored row of its option symbol
  the ask of the row is 1.01.
\<close>

theorem C3_rounding_counterexample:
  "row_ex \<in> set (tbl db_one) \<and> o_symbol quote_fine = Some (option_symbol row_ex)
   \<and> o_ask quote_fine = JNum (201 / 200)
   \<and> insertOptionsData parse_ex db_one [quote_fine] =
       (Inr \<lparr> u_success = True, totalProcessed = 1, insertedCount = 0, updatedCount = 1,
               u_results = [\<lparr> res_id = 1, res_action = ''updated'' \<rparr>] \<rparr>,
        \<lparr> tbl = [row_ex\<lparr> ask := Some (Fin (101 / 100)), timestamp := 2000 \<rparr>], seq = 2 \<rparr>)"
  by (simp add: upsert_defs example_defs)

lemma upsertQuery_prices:
  assumes ok: "fst (upsertQuery d v) = Inr x" and key: "v_option_symbol (coerce v) = Some k"
  shows "(\<exists>r\<in>set (tbl (snd (upsertQuery d v))). option_symbol r = k) \<and>
         (\<forall>r\<in>set (tbl (snd (upsertQuery d v))). option_symbol r = k
             \<longrightarrow> row_prices r = bound_prices (coerce v))"
proof -
  from upsertQuery_Inr[OF ok] obtain new where new: "proposed (seq d + 1) v = Inr new" .
  from proposed_Inr_fields[OF new] key have nk: "option_symbol new = k" by simp
  note np = proposed_prices[OF new]
  show ?thesis
  proof (cases "find (\<lambda>r. option_symbol r = option_symbol new) (tbl d)")
    case None
    then have no: "\<forall>r\<in>set (tbl d). option_symbol r \<noteq> k"
      by (simp add: find_None_iff nk)
    have t: "tbl (snd (upsertQuery d v)) = tbl d @ [new]"
      by (simp add: upsertQuery_fresh[OF new None])
    show ?thesis unfolding t using no nk np by auto
  next
    case (Some old)
    then have o: "old \<in> set (tbl d)" "option_symbol old = k"
      by (auto simp: find_Some_iff nk in_set_conv_nth)
    have t: "tbl (snd (upsertQuery d v)) =
        map (\<lambda>r. if option_symbol r = k then do_update new r else r) (tbl d)"
      by (simp add: upsertQuery_found[OF new Some] nk)
    have "do_update new old \<in>
        (\<lambda>r. if option_symbol r = k then do_update new r else r) ` set (tbl d)"
      by (rule image_eqI[where x = old]) (simp_all add: o)
    then have "do_update new old \<in> set (tbl (snd (upsertQuery d v)))"
      unfolding t set_map .
    moreover have "option_symbol (do_update new old) = k"
      by (simp add: do_update_fields nk)
    ultimately have a: "\<exists>r\<in>set (tbl (snd (upsertQuery d v))). option_symbol r = k"
      by blast
    have b: "\<forall>r\<in>set (tbl (snd (upsertQuery d v))). option_symbol r = k
             \<longrightarrow> row_prices r = bound_prices (coerce v)"
      unfolding t using np by (auto simp: do_update_prices)
    from a b show ?thesis by blast
  qed
qed

text \<open>
  Claim C9, as amended. After a successful batch, take a record of the batch whose option
  symbol, as the key column stores it, no later record of the batch carries. A row with
  that option symbol is stored, and in each of its nine price columns: nothing is stored
  when the record's field is missing or null; a number other than zero is stored rounded
  to two decimals, as the column type \<^verbatim>\<open>DECIMAL(10,2)\<close> does; and so is the
  number that \<^verbatim>\<open>parseFloat\<close> reads from a non-empty string.
\<close>

theorem C9_price_columns:
  assumes ok: "fst (insertOptionsData pf d (pre @ opt # post)) = Inr summ"
    and key: "stored_key opt = Some k"
    and last: "\<forall>q\<in>set post. stored_key q \<noteq> Some k"
  shows "(\<exists>r\<in>set (tbl (snd (insertOptionsData pf d (pre @ opt # post)))). option_symbol r = k)
       \<and> (\<forall>r\<in>set (tbl (snd (insertOptionsData pf d (pre @ opt # post)))).
             option_symbol r = k \<longrightarrow>
               stores pf (o_ask opt) (ask r) \<and> stores pf (o_bid opt) (bid r)
               \<and> stores pf (o_mid opt) (mid r) \<and> stores pf (o_close opt) (close r)
               \<and> stores pf (o_high opt) (high r) \<and> stores pf (o_last opt) (last_col r)
               \<and> stores pf (o_low opt) (low r) \<and> stores pf (o_open opt) (open_col r)
               \<and> stores pf (o_previous_close opt) (previous_close r))"
proof -
  let ?batch = "pre @ opt # post"
  let ?v = "values_of pf opt"
  let ?d' = "snd (insertOptionsData pf d ?batch)"
  from insert_ok_loop[OF ok] obtain i u where
    l: "upsert_loop pf ?batch d [] 0 0 = (Inr (u_results summ, i, u), ?d')"
    by blast
  from upsert_loop_split[OF l] obtain acc1 i1 u1 d1 rid ins d2 where
    q: "upsertQuery d1 ?v = (Inr (rid, ins), d2)"
    and l2: "upsert_loop pf post d2
       (acc1 @ [\<lparr> res_id = rid, res_action = (if ins then ''inserted'' else ''updated'') \<rparr>])
       (if ins then i1 + 1 else i1) (if ins then u1 else u1 + 1)
       = (Inr (u_results summ, i, u), ?d')" .
  let ?acc = "acc1 @ [\<lparr> res_id = rid,
                      res_action = (if ins then ''inserted'' else ''updated'') \<rparr>]"
  let ?i = "if ins then i1 + 1 else i1"
  let ?u = "if ins then u1 else u1 + 1"
  from l2 have ok3: "fst (upsert_loop pf post d2 ?acc ?i ?u) = Inr (u_results summ, i, u)"
    by simp
  from upsert_loop_other_keys[OF ok3 last] l2
  have same: "filter (\<lambda>r. option_symbol r = k) (tbl ?d')
            = filter (\<lambda>r. option_symbol r = k) (tbl d2)" by simp
  from q have okq: "fst (upsertQuery d1 ?v) = Inr (rid, ins)" by simp
  have keyv: "v_option_symbol (coerce ?v) = Some k" using key by (simp add: coerce_values_fields)
  from upsertQuery_prices[OF okq keyv] q
  have ex2: "\<exists>r\<in>set (tbl d2). option_symbol r = k"
    and all2: "\<forall>r\<in>set (tbl d2). option_symbol r = k
                 \<longrightarrow> row_prices r = bound_prices (coerce ?v)"
    by simp_all
  have sets: "{r \<in> set (tbl ?d'). option_symbol r = k} = {r \<in> set (tbl d2). option_symbol r = k}"
    using same by (metis set_filter)
  from ex2 sets have ex0: "\<exists>r\<in>set (tbl ?d'). option_symbol r = k" by blast
  from all2 sets
  have all0: "\<forall>r\<in>set (tbl ?d'). option_symbol r = k
                \<longrightarrow> row_prices r = bound_prices (coerce ?v)"
    by blast
  show ?thesis
    using ex0 all0 bound_prices_stores by blast
qed

theorem C9_price_columns_witness:
  "fst (insertOptionsData parse_ex db_empty ([quote_ex] @ quote_fine # [quote_other])) =
     Inr \<lparr> u_success = True, totalProcessed = 3, insertedCount = 2, updatedCount = 1,
           u_results = [\<lparr> res_id = 1, res_action = ''inserted'' \<rparr>,
                        \<lparr> res_id = 1, res_action = ''updated'' \<rparr>,
                        \<lparr> res_id = 3, res_action = ''inserted'' \<rparr>] \<rparr>
   \<and> stored_key quote_fine = Some ''SPX 250919C100''
   \<and> stored_key quote_other \<noteq> Some ''SPX 250919C100''
   \<and> (\<exists>r\<in>set (tbl (snd (insertOptionsData parse_ex db_empty
                              ([quote_ex] @ quote_fine # [quote_other])))).
         option_symbol r = ''SPX 250919C100''
         \<and> ask r = Some (Fin (101 / 100)) \<and> bid r = Some (Fin 1)
         \<and> mid r = Some (Fin (3 / 2)) \<and> close r = None)
   \<and> map row_prices (tbl (snd (insertOptionsData parse_ex db_empty
                                  ([quote_ex] @ quote_fine # [quote_other]))))
       = [[Some (Fin (101 / 100)), Some (Fin 1), Some (Fin (3 / 2)),
           None, None, None, None, None, None],
          [Some (Fin 2), Some (Fin 1), Some (Fin (3 / 2)),
           None, None, None, None, None, None]]"
proof -
  let ?run = "insertOptionsData parse_ex db_empty ([quote_ex] @ quote_fine # [quote_other])"
  have h1: "fst ?run =
     Inr \<lparr> u_success = True, totalProcessed = 3, insertedCount = 2, updatedCount = 1,
           u_results = [\<lparr> res_id = 1, res_action = ''inserted'' \<rparr>,
                        \<lparr> res_id = 1, res_action = ''updated'' \<rparr>,
                        \<lparr> res_id = 3, res_action = ''inserted'' \<rparr>] \<rparr>"
    by (simp add: upsert_defs example_defs)
  have h2: "stored_key quote_fine = Some ''SPX 250919C100''"
    by (simp add: example_defs stored_key_def stored_text_def)
  have h5: "stored_key quote_other \<noteq> Some ''SPX 250919C100''"
    by (simp add: example_defs stored_key_def stored_text_def)
  then have h3: "\<forall>q\<in>set [quote_other]. stored_key q \<noteq> Some ''SPX 250919C100''" by simp
  from C9_price_columns[OF h1 h2 h3] obtain r where
    r: "r \<in> set (tbl (snd ?run))" "option_symbol r = ''SPX 250919C100''"
    and v: "stores parse_ex (o_ask quote_fine) (ask r)"
      "stores parse_ex (o_bid quote_fine) (bid r)"
      "stores parse_ex (o_mid quote_fine) (mid r)"
      "stores parse_ex (o_close quote_fine) (close r)"
    by blast
  from v have "ask r = Some (Fin (101 / 100)) \<and> bid r = Some (Fin 1)
         \<and> mid r = Some (Fin (3 / 2)) \<and> close r = None"
    by (simp add: example_defs stores_def round2_def floor_rat_numeral floor_rat_one)
  with r have a: "\<exists>r\<in>set (tbl (snd ?run)).
         option_symbol r = ''SPX 250919C100''
         \<and> ask r = Some (Fin (101 / 100)) \<and> bid r = Some (Fin 1)
         \<and> mid r = Some (Fin (3 / 2)) \<and> close r = None"
    by blast
  have b: "map row_prices (tbl (snd ?run))
       = [[Some (Fin (101 / 100)), Some (Fin 1), Some (Fin (3 / 2)),
           None, None, None, None, None, None],
          [Some (Fin 2), Some (Fin 1), Some (Fin (3 / 2)),
           None, None, None, None, None, None]]"
    by (simp add: upsert_defs example_defs row_prices_def)
  from h1 h2 h5 a b show ?thesis by (intro conjI)
qed

text \<open>
  Claim C9 as stated fails on a supplied number with more than two decimals: the ask of
  \<open>quote_fine\<close> is 1.005, and the row inserted for it has the ask 1.01.
\<close>

theorem C9_rounding_counterexample:
  "o_ask quote_fine = JNum (201 / 200)
   \<and> fst (insertOptionsData parse_ex db_empty [quote_fine]) =
       Inr \<lparr> u_success = True, totalProcessed = 1, insertedCount = 1, updatedCount = 0,
             u_results = [\<lparr> res_id = 1, res_action = ''inserted'' \<rparr>] \<rparr>
   \<and> map ask (tbl (snd (insertOptionsData parse_ex db_empty [quote_fine])))
       = [Some (Fin (101 / 100))]"
  by (simp add: upsert_defs example_defs)

text \<open>
  The presence test of a price, \<^verbatim>\<open>option.ask ? parseFloat(option.ask) : null\<close>,
  is a truthiness test: a zero given as a number is bound as null, while the string
  \<^verbatim>\<open>"0"\<close> is stored as zero.
\<close>

lemma zero_price_ex:
  "o_ask quote_again = JNum 0 \<and> o_bid quote_again = JStr ''0''
   \<and> map ask (tbl (snd (insertOptionsData parse_ex db_empty [quote_again]))) = [None]
   \<and> map bid (tbl (snd (insertOptionsData parse_ex db_empty [quote_again]))) = [Some (Fin 0)]"
  by (simp add: upsert_defs example_defs)

section \<open>Retention: properties\<close>

lemma dry_loop:
  "cleanup_loop True c crs d n acc =
     (d, n, acc @ map (\<lambda>cr. if old_records cr > 0 then would_delete_entry cr
                              else no_action_entry cr) crs)"
  by (induction crs arbitrary: acc) simp_all

lemma deleteQuery_eq:
  "deleteQuery d s c =
     (int (length (filter (\<lambda>r. symbol r = s \<and> timestamp r < c) (tbl d))),
      d\<lparr>tbl := filter (\<lambda>r. \<not> (symbol r = s \<and> timestamp r < c)) (tbl d)\<rparr>)"
  by (simp add: deleteQuery_def)

lemma filter_other_symbol:
  "s' \<noteq> s \<Longrightarrow>
   filter (\<lambda>r. symbol r = s' \<and> timestamp r < c)
     (filter (\<lambda>r. \<not> (symbol r = s \<and> timestamp r < c)) xs)
   = filter (\<lambda>r. symbol r = s' \<and> timestamp r < c) xs"
  by (induction xs) auto

lemma live_loop:
  assumes "\<forall>cr\<in>set crs. old_records cr =
             int (length (filter (\<lambda>r. symbol r = cr_symbol cr \<and> timestamp r < c) (tbl d)))"
    and "distinct (map cr_symbol crs)"
  shows "cleanup_loop False c crs d n acc =
     (d\<lparr>tbl := filter (\<lambda>r. \<not> (symbol r \<in> cr_symbol ` set crs \<and> timestamp r < c)) (tbl d)\<rparr>,
      n + sum_list (map old_records crs),
      acc @ map (\<lambda>cr. if old_records cr > 0 then deleted_entry cr (old_records cr)
                       else no_action_entry cr) crs)"
  using assms
proof (induction crs arbitrary: d n acc)
  case Nil
  then show ?case by simp
next
  case (Cons cr rest)
  let ?s = "cr_symbol cr"
  let ?P = "\<lambda>r. symbol r = ?s \<and> timestamp r < c"
  from Cons.prems have k: "old_records cr = int (length (filter ?P (tbl d)))" by simp
  from Cons.prems have dist: "distinct (map cr_symbol rest)" and notin: "?s \<notin> cr_symbol ` set rest"
    by simp_all
  show ?case
  proof (cases "old_records cr > 0")
    case True
    let ?d1 = "d\<lparr>tbl := filter (\<lambda>r. \<not> ?P r) (tbl d)\<rparr>"
    have inv: "\<forall>cr'\<in>set rest. old_records cr' =
             int (length (filter (\<lambda>r. symbol r = cr_symbol cr' \<and> timestamp r < c) (tbl ?d1)))"
    proof
      fix cr' assume m: "cr' \<in> set rest"
      with notin have ne: "cr_symbol cr' \<noteq> ?s" by (metis imageI)
      from Cons.prems(1) m have a: "old_records cr' =
             int (length (filter (\<lambda>r. symbol r = cr_symbol cr' \<and> timestamp r < c) (tbl d)))"
        by simp
      have t1: "tbl ?d1 = filter (\<lambda>r. \<not> ?P r) (tbl d)" by simp
      show "old_records cr' =
             int (length (filter (\<lambda>r. symbol r = cr_symbol cr' \<and> timestamp r < c) (tbl ?d1)))"
        unfolding t1 filter_other_symbol[OF ne] using a .
    qed
    have t: "filter (\<lambda>r. \<not> (symbol r \<in> cr_symbol ` set rest \<and> timestamp r < c))
               (filter (\<lambda>r. \<not> ?P r) (tbl d))
           = filter (\<lambda>r. \<not> (symbol r \<in> cr_symbol ` set (cr # rest) \<and> timestamp r < c)) (tbl d)"
      unfolding filter_filter by (rule filter_cong) auto
    have step: "cleanup_loop False c (cr # rest) d n acc =
        cleanup_loop False c rest ?d1 (n + old_records cr) (acc @ [deleted_entry cr (old_records cr)])"
      using True by (simp add: deleteQuery_eq k)
    show ?thesis
      unfolding step Cons.IH[OF inv dist]
      using True t by (simp add: add.assoc)
  next
    case False
    with k have "filter ?P (tbl d) = []" by simp
    then have none: "\<forall>r\<in>set (tbl d). \<not> ?P r" by (simp add: filter_empty_conv)
    have inv: "\<forall>cr'\<in>set rest. old_records cr' =
             int (length (filter (\<lambda>r. symbol r = cr_symbol cr' \<and> timestamp r < c) (tbl d)))"
      using Cons.prems(1) by simp
    have t: "filter (\<lambda>r. \<not> (symbol r \<in> cr_symbol ` set rest \<and> timestamp r < c)) (tbl d)
           = filter (\<lambda>r. \<not> (symbol r \<in> cr_symbol ` set (cr # rest) \<and> timestamp r < c)) (tbl d)"
      using none by (intro filter_cong) auto
    have z: "old_records cr = 0" using False k by simp
    have step: "cleanup_loop False c (cr # rest) d n acc =
        cleanup_loop False c rest d n (acc @ [no_action_entry cr])"
      using False by simp
    show ?thesis
      unfolding step Cons.IH[OF inv dist]
      using False t z by simp
  qed
qed


lemma count_group_fields:
  "cr_symbol (count_group d c s) = s"
  "total_records (count_group d c s) = int (length (filter (\<lambda>r. symbol r = s) (tbl d)))"
  "old_records (count_group d c s) =
     int (length (filter (\<lambda>r. symbol r = s \<and> timestamp r < c) (tbl d)))"
  by (simp_all add: count_group_def Let_def)

lemma present_set:
  "set (sort (remdups (filter (\<lambda>s. s \<in> set symbols) (map symbol (tbl d))))) =
     {s \<in> set symbols. \<exists>r\<in>set (tbl d). symbol r = s}"
  by auto

lemma present_distinct:
  "distinct (sort (remdups (filter (\<lambda>s. s \<in> set symbols) (map symbol (tbl d)))))"
  by simp

lemma rollback_same: "ROLLBACK d d = d"
  by (simp add: ROLLBACK_def)

lemma cleanup_dry:
  assumes "symbols \<noteq> []"
  shows "cleanupOldOptionsData rnd d now symbols kh True =
     (Inr \<lparr> success = True, dryRun = True,
            cutoffTime = Some (cutoff_time rnd now kh),
            keepHours = Some kh, symbolsProcessed = int (length symbols), totalDeleted = 0,
            results = map (\<lambda>cr. if old_records cr > 0 then would_delete_entry cr
                                 else no_action_entry cr)
                        (map (count_group d (cutoff_time rnd now kh))
                           (sort (remdups (filter (\<lambda>s. s \<in> set symbols) (map symbol (tbl d)))))) \<rparr>,
      d)"
  using assms
  by (simp add: cleanupOldOptionsData_def countQuery_def Let_def dry_loop rollback_same)

lemma cleanup_live:
  assumes "symbols \<noteq> []"
  shows "cleanupOldOptionsData rnd d now symbols kh False =
     (Inr \<lparr> success = True, dryRun = False,
            cutoffTime = Some (cutoff_time rnd now kh),
            keepHours = Some kh, symbolsProcessed = int (length symbols),
            totalDeleted = sum_list (map old_records
                        (map (count_group d (cutoff_time rnd now kh))
                           (sort (remdups (filter (\<lambda>s. s \<in> set symbols) (map symbol (tbl d))))))),
            results = map (\<lambda>cr. if old_records cr > 0 then deleted_entry cr (old_records cr)
                                 else no_action_entry cr)
                        (map (count_group d (cutoff_time rnd now kh))
                           (sort (remdups (filter (\<lambda>s. s \<in> set symbols) (map symbol (tbl d)))))) \<rparr>,
      d\<lparr>tbl := filter (\<lambda>r. \<not> (symbol r \<in> set symbols
                               \<and> timestamp r < cutoff_time rnd now kh))
                   (tbl d)\<rparr>)"
proof -
  let ?c = "cutoff_time rnd now kh"
  let ?present = "sort (remdups (filter (\<lambda>s. s \<in> set symbols) (map symbol (tbl d))))"
  let ?crs = "map (count_group d ?c) ?present"
  have inv: "\<forall>cr\<in>set ?crs. old_records cr =
             int (length (filter (\<lambda>r. symbol r = cr_symbol cr \<and> timestamp r < ?c) (tbl d)))"
    by (simp add: count_group_fields)
  have m: "map cr_symbol ?crs = ?present"
    by (simp add: o_def count_group_fields)
  have dist: "distinct (map cr_symbol ?crs)"
    unfolding m by (rule present_distinct)
  have img: "cr_symbol ` set ?crs = set ?present"
    using m by (metis list.set_map)
  have t: "filter (\<lambda>r. \<not> (symbol r \<in> cr_symbol ` set ?crs \<and> timestamp r < ?c)) (tbl d)
         = filter (\<lambda>r. \<not> (symbol r \<in> set symbols \<and> timestamp r < ?c)) (tbl d)"
    unfolding img present_set by (rule filter_cong) auto
  have cq: "countQuery d symbols ?c = Inr ?crs"
    using assms by (simp add: countQuery_def)
  have loop: "cleanup_loop False ?c ?crs d 0 [] =
      (d\<lparr>tbl := filter (\<lambda>r. \<not> (symbol r \<in> set symbols \<and> timestamp r < ?c)) (tbl d)\<rparr>,
       sum_list (map old_records ?crs),
       map (\<lambda>cr. if old_records cr > 0 then deleted_entry cr (old_records cr)
                  else no_action_entry cr) ?crs)"
    unfolding live_loop[OF inv dist] t by simp
  show ?thesis
    unfolding cleanupOldOptionsData_def Let_def cq sum.case loop by simp
qed

lemma cleanup_empty_symbols:
  "cleanupOldOptionsData rnd d now [] kh dry = (Inl SyntaxError, d)"
  by (simp add: cleanupOldOptionsData_def countQuery_def Let_def rollback_same)


lemma new_Date_int: "new_Date (of_int k) = k"
  by (simp add: new_Date_def)

lemma cutoff_time_exact:
  assumes "exact_arith rnd now kh"
  shows "cutoff_time rnd now kh = new_Date (of_int now - kh * 60 * 60 * 1000)"
proof -
  from assms have a: "rnd (kh * 60) = kh * 60" "rnd (kh * 60 * 60) = kh * 60 * 60"
    "rnd (kh * 60 * 60 * 1000) = kh * 60 * 60 * 1000"
    "rnd (of_int now - kh * 60 * 60 * 1000) = of_int now - kh * 60 * 60 * 1000"
    unfolding exact_arith_def by blast+
  show ?thesis unfolding cutoff_time_def a ..
qed

lemma cutoff_time_ms:
  assumes "exact_arith rnd now (of_int ms / 3600000)"
  shows "cutoff_time rnd now (of_int ms / 3600000) = now - ms"
proof -
  have "of_int now - of_int ms / 3600000 * 60 * 60 * 1000 = (of_int (now - ms) :: rat)"
    by simp
  then show ?thesis
    unfolding cutoff_time_exact[OF assms] by (simp only: new_Date_int)
qed

lemma new_Date_floor: "0 \<le> x \<Longrightarrow> new_Date x = \<lfloor>x\<rfloor>"
  by (simp add: new_Date_def)

lemma cleanup_all_live_tbl:
  "tbl (snd (cleanupAllOldOptionsData rnd d now kh False))
     = filter (\<lambda>r. \<not> timestamp r < cutoff_time rnd now kh) (tbl d)"
proof (cases "tbl d = []")
  case True
  then show ?thesis by (simp add: cleanupAllOldOptionsData_def)
next
  case False
  let ?all = "sort (remdups (map symbol (tbl d)))"
  from False have ne: "?all \<noteq> []"
    by (metis list.map_disc_iff remdups_eq_nil_iff set_empty set_sort)
  have "filter (\<lambda>r. \<not> (symbol r \<in> set ?all \<and> timestamp r < cutoff_time rnd now kh)) (tbl d)
      = filter (\<lambda>r. \<not> timestamp r < cutoff_time rnd now kh) (tbl d)"
    by (rule filter_cong) auto
  with ne show ?thesis
    by (simp add: cleanupAllOldOptionsData_def Let_def cleanup_live[OF ne])
qed

text \<open>
  Claim C4, as amended. A live run over a non-empty symbol list reports as its cutoff the
  instant \<^verbatim>\<open>new Date(Date.now() - (keepHours * 60 * 60 * 1000))\<close>, and leaves
  the table without exactly the rows of the listed symbols observed strictly before that
  cutoff: every other row, in particular every row observed at or after the cutoff, is
  kept, in table order, however many rows a symbol has. A live run over all symbols
  removes exactly the rows observed before the cutoff. When no product and no difference
  of the computation is rounded, the cutoff is \<open>now\<close> minus the duration, cut to a
  whole millisecond towards zero: the last whole millisecond at or before the difference
  when that is not negative, and \<open>now - ms\<close> for a duration of \<open>ms\<close> whole
  milliseconds.
\<close>

theorem C4_live_cutoff:
  assumes "symbols \<noteq> []"
  shows "(\<exists>res. cleanupOldOptionsData rnd d now symbols keep_hours False =
            (Inr res,
             d\<lparr>tbl := filter (\<lambda>r. \<not> (symbol r \<in> set symbols
                                     \<and> timestamp r < cutoff_time rnd now keep_hours))
                          (tbl d)\<rparr>)
          \<and> cutoffTime res = Some (cutoff_time rnd now keep_hours))
       \<and> tbl (snd (cleanupAllOldOptionsData rnd d now keep_hours False))
           = filter (\<lambda>r. \<not> timestamp r < cutoff_time rnd now keep_hours) (tbl d)
       \<and> (exact_arith rnd now keep_hours \<longrightarrow>
            cutoff_time rnd now keep_hours
              = new_Date (of_int now - keep_hours * 60 * 60 * 1000)
            \<and> (0 \<le> of_int now - keep_hours * 60 * 60 * 1000 \<longrightarrow>
                 cutoff_time rnd now keep_hours = \<lfloor>of_int now - keep_hours * 60 * 60 * 1000\<rfloor>)
            \<and> (keep_hours = of_int ms / 3600000 \<longrightarrow>
                 cutoff_time rnd now keep_hours = now - ms))"
proof -
  have a: "\<exists>res. cleanupOldOptionsData rnd d now symbols keep_hours False =
            (Inr res,
             d\<lparr>tbl := filter (\<lambda>r. \<not> (symbol r \<in> set symbols
                                     \<and> timestamp r < cutoff_time rnd now keep_hours))
                          (tbl d)\<rparr>)
          \<and> cutoffTime res = Some (cutoff_time rnd now keep_hours)"
    unfolding cleanup_live[OF assms] by simp
  have b: "tbl (snd (cleanupAllOldOptionsData rnd d now keep_hours False))
           = filter (\<lambda>r. \<not> timestamp r < cutoff_time rnd now keep_hours) (tbl d)"
    by (rule cleanup_all_live_tbl)
  have c: "cutoff_time rnd now keep_hours
              = new_Date (of_int now - keep_hours * 60 * 60 * 1000)
            \<and> (0 \<le> of_int now - keep_hours * 60 * 60 * 1000 \<longrightarrow>
                 cutoff_time rnd now keep_hours = \<lfloor>of_int now - keep_hours * 60 * 60 * 1000\<rfloor>)
            \<and> (keep_hours = of_int ms / 3600000 \<longrightarrow>
                 cutoff_time rnd now keep_hours = now - ms)"
    if ex: "exact_arith rnd now keep_hours"
  proof (intro conjI impI)
    show "cutoff_time rnd now keep_hours = new_Date (of_int now - keep_hours * 60 * 60 * 1000)"
      by (rule cutoff_time_exact[OF ex])
    show "cutoff_time rnd now keep_hours = \<lfloor>of_int now - keep_hours * 60 * 60 * 1000\<rfloor>"
      if "0 \<le> of_int now - keep_hours * 60 * 60 * 1000"
      unfolding cutoff_time_exact[OF ex] by (rule new_Date_floor[OF that])
    show "cutoff_time rnd now keep_hours = now - ms" if k: "keep_hours = of_int ms / 3600000"
      using cutoff_time_ms[of rnd now ms] ex unfolding k by simp
  qed
  from a b c show ?thesis by blast
qed

lemmas cleanup_example_defs =
  db_three_def db_edge_def row_at_def now_ex_def dry_result_ex_def exact_def

theorem C4_live_cutoff_witness:
  "[''SPX''] \<noteq> [] \<and> exact_arith exact now_ex (1 / 2)
   \<and> (1 / 2 :: rat) = of_int 1800000 / 3600000
   \<and> (0 :: rat) \<le> of_int now_ex - 1 / 2 * 60 * 60 * 1000
   \<and> cutoff_time exact now_ex (1 / 2) = 5400000
   \<and> cutoff_time exact now_ex (1 / 2) = \<lfloor>of_int now_ex - 1 / 2 * 60 * 60 * 1000 :: rat\<rfloor>
   \<and> (\<exists>res. cleanupOldOptionsData exact db_three now_ex [''SPX''] (1 / 2) False =
            (Inr res, \<lparr> tbl = [row_at 3 ''SPX'' 6600000 (Some (Fin 7))], seq = 3 \<rparr>)
          \<and> cutoffTime res = Some 5400000)
   \<and> tbl (snd (cleanupAllOldOptionsData exact db_three now_ex (1 / 2) False))
       = [row_at 3 ''SPX'' 6600000 (Some (Fin 7))]"
proof -
  have h1: "[''SPX''] \<noteq> []" by simp
  have h2: "exact_arith exact now_ex (1 / 2)" by (simp add: exact_arith_def exact_def)
  have h3: "(1 / 2 :: rat) = of_int 1800000 / 3600000" by simp
  have h4: "(0 :: rat) \<le> of_int now_ex - 1 / 2 * 60 * 60 * 1000" by (simp add: now_ex_def)
  note c = C4_live_cutoff[OF h1, where rnd = exact and d = db_three and now = now_ex
      and keep_hours = "1 / 2" and ms = 1800000]
  from c h2 h3 have k: "cutoff_time exact now_ex (1 / 2) = now_ex - 1800000" by blast
  then have k': "cutoff_time exact now_ex (1 / 2) = 5400000" by (simp add: now_ex_def)
  from c h2 h4
  have fl: "cutoff_time exact now_ex (1 / 2) = \<lfloor>of_int now_ex - 1 / 2 * 60 * 60 * 1000 :: rat\<rfloor>"
    by blast
  have f1: "db_three\<lparr>tbl := filter (\<lambda>r. \<not> (symbol r \<in> set [''SPX'']
                \<and> timestamp r < 5400000)) (tbl db_three)\<rparr>
          = \<lparr> tbl = [row_at 3 ''SPX'' 6600000 (Some (Fin 7))], seq = 3 \<rparr>"
    by (simp add: cleanup_example_defs)
  have f2: "filter (\<lambda>r. \<not> timestamp r < 5400000) (tbl db_three)
          = [row_at 3 ''SPX'' 6600000 (Some (Fin 7))]"
    by (simp add: cleanup_example_defs)
  from c
  have "(\<exists>res. cleanupOldOptionsData exact db_three now_ex [''SPX''] (1 / 2) False =
            (Inr res,
             db_three\<lparr>tbl := filter (\<lambda>r. \<not> (symbol r \<in> set [''SPX'']
                \<and> timestamp r < 5400000)) (tbl db_three)\<rparr>)
          \<and> cutoffTime res = Some 5400000)
       \<and> tbl (snd (cleanupAllOldOptionsData exact db_three now_ex (1 / 2) False))
           = filter (\<lambda>r. \<not> timestamp r < 5400000) (tbl db_three)"
    unfolding k' by blast
  then show ?thesis unfolding f1 f2 using h1 h2 h3 h4 k' fl by blast
qed

text \<open>
  Claim C4 as stated fails for a positive duration that is not a whole number of
  milliseconds. With \<^verbatim>\<open>keepHours\<close> one 4194304th of an hour, about 0.86 milliseconds, every
  product and the difference of the computation are exact in doubles. The row of
  \<open>db_edge\<close> is observed one millisecond before \<open>now_ex\<close>, which is strictly before
  \<open>now_ex\<close> minus the duration; the cutoff of the run is the instant of the row, and
  the live run keeps the row.
\<close>

theorem C4_fractional_counterexample:
  "(0 :: rat) < 1 / 4194304
   \<and> map timestamp (tbl db_edge) = [7199999]
   \<and> (of_int 7199999 :: rat) < of_int now_ex - 1 / 4194304 * 60 * 60 * 1000
   \<and> cleanupOldOptionsData exact db_edge now_ex [''SPX''] (1 / 4194304) False =
       (Inr \<lparr> success = True, dryRun = False, cutoffTime = Some 7199999,
               keepHours = Some (1 / 4194304), symbolsProcessed = 1, totalDeleted = 0,
               results = [\<lparr> e_symbol = ''SPX'', totalRecords = 1, oldRecords = None,
                            deletedRecords = Some 0, keptRecords = 1,
                            oldestTimestamp = Some 7199999, newestTimestamp = Some 7199999,
                            action = ''no_action'' \<rparr>] \<rparr>,
        db_edge)"
proof -
  have "cutoff_time exact now_ex (1 / 4194304) = new_Date (235929571875 / 32768)"
    by (simp add: cutoff_time_def exact_def now_ex_def)
  also have "\<dots> = 7199999"
    by (simp add: new_Date_def floor_rat_numeral)
  finally have c: "cutoff_time exact now_ex (1 / 4194304) = 7199999" .
  have a: "(0 :: rat) < 1 / 4194304" by simp
  have t: "map timestamp (tbl db_edge) = [7199999]" by (simp add: db_edge_def row_at_def)
  have l: "(of_int 7199999 :: rat) < of_int now_ex - 1 / 4194304 * 60 * 60 * 1000"
    by (simp add: now_ex_def)
  have r: "cleanupOldOptionsData exact db_edge now_ex [''SPX''] (1 / 4194304) False =
       (Inr \<lparr> success = True, dryRun = False, cutoffTime = Some 7199999,
               keepHours = Some (1 / 4194304), symbolsProcessed = 1, totalDeleted = 0,
               results = [\<lparr> e_symbol = ''SPX'', totalRecords = 1, oldRecords = None,
                            deletedRecords = Some 0, keptRecords = 1,
                            oldestTimestamp = Some 7199999, newestTimestamp = Some 7199999,
                            action = ''no_action'' \<rparr>] \<rparr>,
        db_edge)"
    unfolding cleanupOldOptionsData_def c
    by (simp add: countQuery_def count_group_def deleteQuery_def sql_min_def sql_max_def
        ROLLBACK_def Let_def no_action_entry_def db_edge_def row_at_def)
  from a t l r show ?thesis by (intro conjI)
qed

lemma deleted_of_entries:
  "deleted_of (deleted_entry cr k) = k"
  "deleted_of (no_action_entry cr) = 0"
  "deleted_of (would_delete_entry cr) = 0"
  by (simp_all add: deleted_of_def deleted_entry_def no_action_entry_def would_delete_entry_def)

lemma would_delete_of_entries:
  "would_delete_of (deleted_entry cr k) = 0"
  "would_delete_of (no_action_entry cr) = 0"
  "would_delete_of (would_delete_entry cr) = old_records cr"
  by (simp_all add: would_delete_of_def deleted_entry_def no_action_entry_def
      would_delete_entry_def)

lemma sum_deleted_live:
  assumes "\<forall>cr\<in>set crs. 0 \<le> old_records cr"
  shows "sum_list (map deleted_of
           (map (\<lambda>cr. if old_records cr > 0 then deleted_entry cr (old_records cr)
                      else no_action_entry cr) crs))
         = sum_list (map old_records crs)"
  using assms by (induction crs) (auto simp: deleted_of_entries)

lemma sum_deleted_dry:
  "sum_list (map deleted_of
           (map (\<lambda>cr. if old_records cr > 0 then would_delete_entry cr
                      else no_action_entry cr) crs)) = 0"
  by (induction crs) (auto simp: deleted_of_entries)

lemma old_records_nonneg: "\<forall>cr\<in>set (map (count_group d c) ss). 0 \<le> old_records cr"
  by (simp add: count_group_fields)

lemma totalDeleted_direct:
  assumes "fst (cleanupOldOptionsData rnd d now symbols kh dry) = Inr res"
  shows "totalDeleted res = sum_list (map deleted_of (results res))
         \<and> (dry \<longrightarrow> totalDeleted res = 0)"
proof (cases "symbols = []")
  case True
  with assms show ?thesis by (simp add: cleanup_empty_symbols)
next
  case False
  let ?crs = "map (count_group d (cutoff_time rnd now kh))
                (sort (remdups (filter (\<lambda>s. s \<in> set symbols) (map symbol (tbl d)))))"
  show ?thesis
  proof (cases dry)
    case True
    from assms have "fst (cleanupOldOptionsData rnd d now symbols kh True) = Inr res"
      using True by simp
    then have t: "totalDeleted res = 0"
      and r: "results res = map (\<lambda>cr. if old_records cr > 0 then would_delete_entry cr
                                 else no_action_entry cr) ?crs"
      unfolding cleanup_dry[OF False] by auto
    show ?thesis unfolding t r sum_deleted_dry by simp
  next
    case f: False
    from assms have "fst (cleanupOldOptionsData rnd d now symbols kh False) = Inr res"
      using f by simp
    then have t: "totalDeleted res = sum_list (map old_records ?crs)"
      and r: "results res = map (\<lambda>cr. if old_records cr > 0
                                 then deleted_entry cr (old_records cr)
                                 else no_action_entry cr) ?crs"
      unfolding cleanup_live[OF False] by auto
    show ?thesis unfolding t r sum_deleted_live[OF old_records_nonneg] using f by simp
  qed
qed

lemma all_symbols_empty: "(sort (remdups (map symbol xs)) = []) = (xs = [])"
  by (metis list.map_disc_iff remdups_eq_nil_iff set_empty set_sort)

lemma cleanup_all_cases:
  "cleanupAllOldOptionsData rnd d now kh dry =
     (if tbl d = [] then
        (Inr \<lparr> success = True, dryRun = dry, cutoffTime = None, keepHours = None,
               symbolsProcessed = 0, totalDeleted = 0, results = [] \<rparr>, d)
      else cleanupOldOptionsData rnd d now (sort (remdups (map symbol (tbl d)))) kh dry)"
  by (simp add: cleanupAllOldOptionsData_def Let_def all_symbols_empty)

lemma totalDeleted_sum:
  assumes "fst (cleanupOldOptionsData rnd d now symbols kh dry) = Inr res
           \<or> fst (cleanupAllOldOptionsData rnd d now kh dry) = Inr res"
  shows "totalDeleted res = sum_list (map deleted_of (results res))
         \<and> (dry \<longrightarrow> totalDeleted res = 0)"
  using assms
proof
  assume "fst (cleanupOldOptionsData rnd d now symbols kh dry) = Inr res"
  then show ?thesis by (rule totalDeleted_direct)
next
  assume a: "fst (cleanupAllOldOptionsData rnd d now kh dry) = Inr res"
  show ?thesis
  proof (cases "tbl d = []")
    case True
    with a show ?thesis by (auto simp: cleanup_all_cases)
  next
    case False
    with a have "fst (cleanupOldOptionsData rnd d now (sort (remdups (map symbol (tbl d)))) kh dry)
        = Inr res" by (simp add: cleanup_all_cases)
    then show ?thesis by (rule totalDeleted_direct)
  qed
qed

lemma count_by_symbol:
  "distinct ss \<Longrightarrow>
   sum_list (map (\<lambda>s. int (length (filter (\<lambda>r. symbol r = s \<and> P r) xs))) ss)
     = int (length (filter (\<lambda>r. symbol r \<in> set ss \<and> P r) xs))"
proof (induction ss)
  case Nil
  then show ?case by simp
next
  case (Cons s ss)
  then have d: "distinct ss" and n: "s \<notin> set ss" by simp_all
  have "length (filter (\<lambda>r. symbol r \<in> set (s # ss) \<and> P r) xs)
      = length (filter (\<lambda>r. symbol r = s \<and> P r) xs)
        + length (filter (\<lambda>r. symbol r \<in> set ss \<and> P r) xs)"
    using n by (induction xs) auto
  with Cons.IH[OF d] show ?case by simp
qed

text \<open>
  In a live run \<^verbatim>\<open>totalDeleted\<close> is the number of rows the run removes from the
  table.
\<close>

lemma totalDeleted_live_rows:
  assumes "fst (cleanupOldOptionsData rnd d now symbols kh False) = Inr res"
  shows "totalDeleted res
       = int (length (tbl d))
         - int (length (tbl (snd (cleanupOldOptionsData rnd d now symbols kh False))))"
proof -
  from assms have ne: "symbols \<noteq> []" by (auto simp: cleanup_empty_symbols)
  let ?c = "cutoff_time rnd now kh"
  let ?present = "sort (remdups (filter (\<lambda>s. s \<in> set symbols) (map symbol (tbl d))))"
  let ?Q = "\<lambda>r. symbol r \<in> set symbols \<and> timestamp r < ?c"
  from assms have t: "totalDeleted res = sum_list (map old_records (map (count_group d ?c) ?present))"
    unfolding cleanup_live[OF ne] by auto
  have "sum_list (map old_records (map (count_group d ?c) ?present))
      = sum_list (map (\<lambda>s. int (length (filter (\<lambda>r. symbol r = s \<and> timestamp r < ?c) (tbl d))))
           ?present)"
    by (simp add: o_def count_group_fields)
  also have "\<dots> = int (length (filter (\<lambda>r. symbol r \<in> set ?present \<and> timestamp r < ?c) (tbl d)))"
    by (rule count_by_symbol[OF present_distinct])
  also have "filter (\<lambda>r. symbol r \<in> set ?present \<and> timestamp r < ?c) (tbl d) = filter ?Q (tbl d)"
    unfolding present_set by (rule filter_cong) auto
  finally have s: "totalDeleted res = int (length (filter ?Q (tbl d)))"
    using t by simp
  have "length (tbl d) = length (filter ?Q (tbl d)) + length (filter (\<lambda>r. \<not> ?Q r) (tbl d))"
    by (rule sum_length_filter_compl[symmetric])
  moreover have "tbl (snd (cleanupOldOptionsData rnd d now symbols kh False))
      = filter (\<lambda>r. \<not> ?Q r) (tbl d)"
    unfolding cleanup_live[OF ne] by simp
  ultimately show ?thesis using s by simp
qed

lemmas cleanup_defs =
  cleanupOldOptionsData_def cleanupAllOldOptionsData_def countQuery_def count_group_def
  cutoff_time_def new_Date_def deleteQuery_def sql_min_def sql_max_def ROLLBACK_def Let_def
  would_delete_entry_def deleted_entry_def no_action_entry_def

lemma dry_run_ex:
  "cleanupOldOptionsData exact db_three now_ex [''SPX'', ''QQQ''] (1 / 2) True
     = (Inr dry_result_ex, db_three)"
  by (simp add: cleanup_defs cleanup_example_defs)

text \<open>
  Claim C1 holds of a live run (\<open>totalDeleted_sum\<close>, \<open>totalDeleted_live_rows\<close>) and
  not of a dry run. Over \<open>db_three\<close> two rows would be deleted: the entry of the symbol
  says so, and so does the total that the dry run computes for its log line,
  \<^verbatim>\<open>wouldDeleteTotal\<close>; the \<^verbatim>\<open>totalDeleted\<close> returned is zero.
  The live run from the same state returns two.
\<close>

theorem C1_dry_run_total_dropped:
  "cleanupOldOptionsData exact db_three now_ex [''SPX'', ''QQQ''] (1 / 2) True
     = (Inr dry_result_ex, db_three)
   \<and> map would_delete_of (results dry_result_ex) = [2]
   \<and> wouldDeleteTotal (results dry_result_ex) = 2
   \<and> totalDeleted dry_result_ex = 0
   \<and> cleanupOldOptionsData exact db_three now_ex [''SPX'', ''QQQ''] (1 / 2) False
     = (Inr \<lparr> success = True, dryRun = False, cutoffTime = Some 5400000,
              keepHours = Some (1 / 2), symbolsProcessed = 2, totalDeleted = 2,
              results = [\<lparr> e_symbol = ''SPX'', totalRecords = 3, oldRecords = None,
                           deletedRecords = Some 2, keptRecords = 1,
                           oldestTimestamp = Some 0, newestTimestamp = Some 6600000,
                           action = ''deleted'' \<rparr>] \<rparr>,
        \<lparr> tbl = [row_at 3 ''SPX'' 6600000 (Some (Fin 7))], seq = 3 \<rparr>)"
proof -
  have a: "cleanupOldOptionsData exact db_three now_ex [''SPX'', ''QQQ''] (1 / 2) True
     = (Inr dry_result_ex, db_three)"
    by (simp add: cleanup_defs cleanup_example_defs)
  have b: "map would_delete_of (results dry_result_ex) = [2]"
    "wouldDeleteTotal (results dry_result_ex) = 2" "totalDeleted dry_result_ex = 0"
    by (simp_all add: dry_result_ex_def would_delete_of_def wouldDeleteTotal_def)
  have c: "cleanupOldOptionsData exact db_three now_ex [''SPX'', ''QQQ''] (1 / 2) False
     = (Inr \<lparr> success = True, dryRun = False, cutoffTime = Some 5400000,
              keepHours = Some (1 / 2), symbolsProcessed = 2, totalDeleted = 2,
              results = [\<lparr> e_symbol = ''SPX'', totalRecords = 3, oldRecords = None,
                           deletedRecords = Some 2, keptRecords = 1,
                           oldestTimestamp = Some 0, newestTimestamp = Some 6600000,
                           action = ''deleted'' \<rparr>] \<rparr>,
        \<lparr> tbl = [row_at 3 ''SPX'' 6600000 (Some (Fin 7))], seq = 3 \<rparr>)"
    by (simp add: cleanup_defs cleanup_example_defs)
  from a b c show ?thesis by (intro conjI)
qed

lemma entry_symbols:
  "e_symbol (deleted_entry cr k) = cr_symbol cr"
  "e_symbol (no_action_entry cr) = cr_symbol cr"
  "e_symbol (would_delete_entry cr) = cr_symbol cr"
  by (simp_all add: deleted_entry_def no_action_entry_def would_delete_entry_def)

lemma dry_entries_symbols:
  "map e_symbol (map (\<lambda>cr. if old_records cr > 0 then would_delete_entry cr
                            else no_action_entry cr) (map (count_group d c) ss)) = ss"
  by (induction ss) (simp_all add: entry_symbols count_group_fields)

lemma live_entries_symbols:
  "map e_symbol (map (\<lambda>cr. if old_records cr > 0 then deleted_entry cr (old_records cr)
                            else no_action_entry cr) (map (count_group d c) ss)) = ss"
  by (induction ss) (simp_all add: entry_symbols count_group_fields)

lemma cleanup_results_symbols:
  assumes "symbols \<noteq> []"
  shows "\<exists>res d'. cleanupOldOptionsData rnd d now symbols kh dry = (Inr res, d')
           \<and> symbolsProcessed res = int (length symbols)
           \<and> map e_symbol (results res)
               = sort (remdups (filter (\<lambda>s. s \<in> set symbols) (map symbol (tbl d))))"
proof (cases dry)
  case True
  then have "dry = True" by simp
  show ?thesis unfolding \<open>dry = True\<close> cleanup_dry[OF assms]
    by (simp add: dry_entries_symbols del: map_map)
next
  case False
  then have "dry = False" by simp
  show ?thesis unfolding \<open>dry = False\<close> cleanup_live[OF assms]
    by (simp add: live_entries_symbols del: map_map)
qed

text \<open>
  Claim C10. A cleanup over a non-empty symbol list reports as
  \<^verbatim>\<open>symbolsProcessed\<close> the length of the list. The per-symbol results have one
  entry for each listed symbol that has a stored row, in symbol order, and none for a
  listed symbol without rows; so the results are at most as long as
  \<^verbatim>\<open>symbolsProcessed\<close>, and shorter when a listed symbol has no row.
\<close>

theorem C10_symbols_processed:
  assumes "symbols \<noteq> []"
  shows "\<exists>res d'. cleanupOldOptionsData rnd d now symbols kh dry = (Inr res, d')
           \<and> symbolsProcessed res = int (length symbols)
           \<and> map e_symbol (results res)
               = sort (remdups (filter (\<lambda>s. s \<in> set symbols) (map symbol (tbl d))))
           \<and> set (map e_symbol (results res))
               = {s \<in> set symbols. \<exists>r\<in>set (tbl d). symbol r = s}
           \<and> int (length (results res)) \<le> symbolsProcessed res
           \<and> ((\<exists>s\<in>set symbols. \<forall>r\<in>set (tbl d). symbol r \<noteq> s)
                 \<longrightarrow> int (length (results res)) < symbolsProcessed res)"
proof -
  let ?present = "sort (remdups (filter (\<lambda>s. s \<in> set symbols) (map symbol (tbl d))))"
  from cleanup_results_symbols[OF assms] obtain res d' where
    run: "cleanupOldOptionsData rnd d now symbols kh dry = (Inr res, d')"
    and n: "symbolsProcessed res = int (length symbols)"
    and m: "map e_symbol (results res) = ?present" by blast
  have st: "set (map e_symbol (results res)) = {s \<in> set symbols. \<exists>r\<in>set (tbl d). symbol r = s}"
    unfolding m by (rule present_set)
  have len: "length (results res) = card (set ?present)"
    using m present_distinct[of symbols d] by (metis distinct_card length_map)
  have sub: "set ?present \<subseteq> set symbols" by auto
  then have "card (set ?present) \<le> card (set symbols)"
    by (intro card_mono) simp_all
  also have "\<dots> \<le> length symbols" by (rule card_length)
  finally have le: "int (length (results res)) \<le> symbolsProcessed res"
    using len n by simp
  have lt: "(\<exists>s\<in>set symbols. \<forall>r\<in>set (tbl d). symbol r \<noteq> s)
                 \<longrightarrow> int (length (results res)) < symbolsProcessed res"
  proof
    assume "\<exists>s\<in>set symbols. \<forall>r\<in>set (tbl d). symbol r \<noteq> s"
    then obtain s where s: "s \<in> set symbols" "\<forall>r\<in>set (tbl d). symbol r \<noteq> s" by blast
    then have "s \<notin> set ?present" by auto
    with s(1) sub have "set ?present \<subset> set symbols" by blast
    then have "card (set ?present) < card (set symbols)"
      by (intro psubset_card_mono) simp_all
    also have "\<dots> \<le> length symbols" by (rule card_length)
    finally show "int (length (results res)) < symbolsProcessed res"
      using len n by simp
  qed
  from run n m st le lt show ?thesis by blast
qed

theorem C10_symbols_processed_witness:
  "[''SPX'', ''QQQ''] \<noteq> []
   \<and> (\<exists>res d'. cleanupOldOptionsData exact db_three now_ex [''SPX'', ''QQQ''] (1 / 2) True = (Inr res, d')
         \<and> symbolsProcessed res = 2
         \<and> map e_symbol (results res) = [''SPX'']
         \<and> int (length (results res)) < symbolsProcessed res)"
proof -
  have h: "[''SPX'', ''QQQ''] \<noteq> []" by simp
  have p: "sort (remdups (filter (\<lambda>s. s \<in> set [''SPX'', ''QQQ'']) (map symbol (tbl db_three))))
             = [''SPX'']"
    by (simp add: cleanup_example_defs)
  have q: "\<exists>s\<in>set [''SPX'', ''QQQ'']. \<forall>r\<in>set (tbl db_three). symbol r \<noteq> s"
    by (simp add: cleanup_example_defs)
  from C10_symbols_processed[OF h, of exact db_three now_ex "1 / 2" True] obtain res d' where
    "cleanupOldOptionsData exact db_three now_ex [''SPX'', ''QQQ''] (1 / 2) True = (Inr res, d')"
    "symbolsProcessed res = int (length [''SPX'', ''QQQ''])"
    "map e_symbol (results res)
       = sort (remdups (filter (\<lambda>s. s \<in> set [''SPX'', ''QQQ'']) (map symbol (tbl db_three))))"
    "(\<exists>s\<in>set [''SPX'', ''QQQ'']. \<forall>r\<in>set (tbl db_three). symbol r \<noteq> s)
                 \<longrightarrow> int (length (results res)) < symbolsProcessed res"
    by blast
  with p q h show ?thesis by auto
qed

lemma fold_plus_sum:
  "fold (\<lambda>x (acc::int). acc + f x) xs a = a + sum_list (map f xs)"
  by (induction xs arbitrary: a) simp_all

lemma wouldDeleteTotal_sum: "wouldDeleteTotal rs = sum_list (map would_delete_of rs)"
  unfolding wouldDeleteTotal_def would_delete_of_def by (simp add: fold_plus_sum)

lemma dry_entry_facts:
  assumes "e = (if old_records cr > 0 then would_delete_entry cr else no_action_entry cr)"
    and "0 \<le> old_records cr"
  shows "e_symbol e = cr_symbol cr" "totalRecords e = total_records cr"
    "would_delete_of e = old_records cr" "keptRecords e = total_records cr - old_records cr"
    "action e = (if old_records cr > 0 then ''would_delete'' else ''no_action'')"
  using assms
  by (auto simp: would_delete_entry_def no_action_entry_def would_delete_of_def)

lemma live_entry_facts:
  assumes "e = (if old_records cr > 0 then deleted_entry cr (old_records cr)
                else no_action_entry cr)"
    and "0 \<le> old_records cr"
  shows "e_symbol e = cr_symbol cr" "totalRecords e = total_records cr"
    "deleted_of e = old_records cr" "keptRecords e = total_records cr - old_records cr"
  using assms
  by (auto simp: deleted_entry_def no_action_entry_def deleted_of_def)

lemma entries_agree:
  assumes "\<forall>cr\<in>set crs. 0 \<le> old_records cr"
  shows "map e_symbol (map (\<lambda>cr. if old_records cr > 0 then deleted_entry cr (old_records cr)
                                 else no_action_entry cr) crs)
       = map e_symbol (map (\<lambda>cr. if old_records cr > 0 then would_delete_entry cr
                                 else no_action_entry cr) crs)"
    "map totalRecords (map (\<lambda>cr. if old_records cr > 0 then deleted_entry cr (old_records cr)
                                 else no_action_entry cr) crs)
       = map totalRecords (map (\<lambda>cr. if old_records cr > 0 then would_delete_entry cr
                                 else no_action_entry cr) crs)"
    "map keptRecords (map (\<lambda>cr. if old_records cr > 0 then deleted_entry cr (old_records cr)
                                 else no_action_entry cr) crs)
       = map keptRecords (map (\<lambda>cr. if old_records cr > 0 then would_delete_entry cr
                                 else no_action_entry cr) crs)"
    "map deleted_of (map (\<lambda>cr. if old_records cr > 0 then deleted_entry cr (old_records cr)
                                 else no_action_entry cr) crs)
       = map would_delete_of (map (\<lambda>cr. if old_records cr > 0 then would_delete_entry cr
                                 else no_action_entry cr) crs)"
    "sum_list (map would_delete_of (map (\<lambda>cr. if old_records cr > 0 then would_delete_entry cr
                                 else no_action_entry cr) crs))
       = sum_list (map old_records crs)"
  using assms
  by (induction crs)
     (auto simp: deleted_entry_def no_action_entry_def would_delete_entry_def
        deleted_of_def would_delete_of_def)

lemma cleanup_dry_tbl: "tbl (snd (cleanupOldOptionsData rnd d now symbols kh True)) = tbl d"
  by (cases "symbols = []") (simp_all add: cleanup_empty_symbols cleanup_dry)

lemma cleanup_all_dry_tbl: "tbl (snd (cleanupAllOldOptionsData rnd d now kh True)) = tbl d"
  by (simp add: cleanup_all_cases cleanup_dry_tbl)


lemma count_group_notions:
  "total_records (count_group d c s) = int (length (rows_of d s))"
  "old_records (count_group d c s) = int (length (stale_of d c s))"
  by (simp_all add: count_group_fields rows_of_def stale_of_def)

lemma dry_entry_of_group:
  assumes "e = (if old_records (count_group d c s) > 0 then would_delete_entry (count_group d c s)
                else no_action_entry (count_group d c s))"
  shows "(action e = ''would_delete'' \<or> action e = ''no_action'')
       \<and> (action e = ''would_delete'' \<longleftrightarrow> stale_of d c (e_symbol e) \<noteq> [])
       \<and> totalRecords e = int (length (rows_of d (e_symbol e)))
       \<and> would_delete_of e = int (length (stale_of d c (e_symbol e)))
       \<and> keptRecords e = totalRecords e - would_delete_of e"
proof -
  let ?cr = "count_group d c s"
  have nn: "0 \<le> old_records ?cr" by (simp add: count_group_fields)
  note f = dry_entry_facts[OF assms nn]
  have sy: "e_symbol e = s" using f(1) by (simp add: count_group_fields)
  have a: "action e = ''would_delete'' \<longleftrightarrow> stale_of d c s \<noteq> []"
    unfolding f(5) by (simp add: count_group_notions)
  have b: "action e = ''would_delete'' \<or> action e = ''no_action''"
    unfolding f(5) by simp
  show ?thesis
    unfolding sy using a b f(2,3,4) by (simp add: count_group_notions)
qed

text \<open>
  Claim C5. A dry run, over a symbol list or over all symbols, leaves the rows of the table
  as they were. Each entry of its per-symbol results is marked
  \<^verbatim>\<open>would_delete\<close> when the symbol has a row observed before the cutoff and
  \<^verbatim>\<open>no_action\<close> when it has none; it reports the number of the symbol's rows,
  the number of those observed before the cutoff, and their difference as kept. A live run
  from the same state reports the same symbols, totals and kept counts, deletes per symbol
  what the dry run reported as old, and its \<^verbatim>\<open>totalDeleted\<close> is the dry run's
  would-delete total.
\<close>

theorem C5_dry_run:
  "tbl (snd (cleanupOldOptionsData rnd d now symbols kh True)) = tbl d
   \<and> tbl (snd (cleanupAllOldOptionsData rnd d now kh True)) = tbl d
   \<and> (fst (cleanupOldOptionsData rnd d now symbols kh True) = Inr res \<longrightarrow>
        (\<forall>e\<in>set (results res).
            (action e = ''would_delete'' \<or> action e = ''no_action'')
          \<and> (action e = ''would_delete'' \<longleftrightarrow> stale_of d (cutoff_time rnd now kh) (e_symbol e) \<noteq> [])
          \<and> totalRecords e = int (length (rows_of d (e_symbol e)))
          \<and> would_delete_of e = int (length (stale_of d (cutoff_time rnd now kh) (e_symbol e)))
          \<and> keptRecords e = totalRecords e - would_delete_of e)
        \<and> (\<forall>live. fst (cleanupOldOptionsData rnd d now symbols kh False) = Inr live \<longrightarrow>
              map e_symbol (results live) = map e_symbol (results res)
            \<and> map totalRecords (results live) = map totalRecords (results res)
            \<and> map keptRecords (results live) = map keptRecords (results res)
            \<and> map deleted_of (results live) = map would_delete_of (results res)
            \<and> totalDeleted live = wouldDeleteTotal (results res)))"
proof (intro conjI impI)
  show "tbl (snd (cleanupOldOptionsData rnd d now symbols kh True)) = tbl d"
    by (rule cleanup_dry_tbl)
  show "tbl (snd (cleanupAllOldOptionsData rnd d now kh True)) = tbl d"
    by (rule cleanup_all_dry_tbl)
next
  let ?c = "cutoff_time rnd now kh"
  let ?crs = "map (count_group d ?c)
                (sort (remdups (filter (\<lambda>s. s \<in> set symbols) (map symbol (tbl d)))))"
  let ?dry = "\<lambda>cr. if old_records cr > 0 then would_delete_entry cr else no_action_entry cr"
  let ?live = "\<lambda>cr. if old_records cr > 0 then deleted_entry cr (old_records cr)
                     else no_action_entry cr"
  assume ok: "fst (cleanupOldOptionsData rnd d now symbols kh True) = Inr res"
  then have ne: "symbols \<noteq> []" by (auto simp: cleanup_empty_symbols)
  from ok have r: "results res = map ?dry ?crs"
    unfolding cleanup_dry[OF ne] by auto
  show "\<forall>e\<in>set (results res).
            (action e = ''would_delete'' \<or> action e = ''no_action'')
          \<and> (action e = ''would_delete'' \<longleftrightarrow> stale_of d ?c (e_symbol e) \<noteq> [])
          \<and> totalRecords e = int (length (rows_of d (e_symbol e)))
          \<and> would_delete_of e = int (length (stale_of d ?c (e_symbol e)))
          \<and> keptRecords e = totalRecords e - would_delete_of e"
  proof
    fix e assume "e \<in> set (results res)"
    then have "e \<in> (\<lambda>s. ?dry (count_group d ?c s)) `
        set (sort (remdups (filter (\<lambda>s. s \<in> set symbols) (map symbol (tbl d)))))"
      unfolding r by (simp only: set_map image_image)
    then obtain s where "e = ?dry (count_group d ?c s)"
      by (rule imageE)
    then show "(action e = ''would_delete'' \<or> action e = ''no_action'')
          \<and> (action e = ''would_delete'' \<longleftrightarrow> stale_of d ?c (e_symbol e) \<noteq> [])
          \<and> totalRecords e = int (length (rows_of d (e_symbol e)))
          \<and> would_delete_of e = int (length (stale_of d ?c (e_symbol e)))
          \<and> keptRecords e = totalRecords e - would_delete_of e"
      by (rule dry_entry_of_group)
  qed
  show "\<forall>live. fst (cleanupOldOptionsData rnd d now symbols kh False) = Inr live \<longrightarrow>
              map e_symbol (results live) = map e_symbol (results res)
            \<and> map totalRecords (results live) = map totalRecords (results res)
            \<and> map keptRecords (results live) = map keptRecords (results res)
            \<and> map deleted_of (results live) = map would_delete_of (results res)
            \<and> totalDeleted live = wouldDeleteTotal (results res)"
  proof (intro allI impI)
    fix live assume "fst (cleanupOldOptionsData rnd d now symbols kh False) = Inr live"
    then have l: "results live = map ?live ?crs"
      and t: "totalDeleted live = sum_list (map old_records ?crs)"
      unfolding cleanup_live[OF ne] by auto
    note ag = entries_agree[OF old_records_nonneg, of d ?c]
    show "map e_symbol (results live) = map e_symbol (results res)
            \<and> map totalRecords (results live) = map totalRecords (results res)
            \<and> map keptRecords (results live) = map keptRecords (results res)
            \<and> map deleted_of (results live) = map would_delete_of (results res)
            \<and> totalDeleted live = wouldDeleteTotal (results res)"
      unfolding l r t wouldDeleteTotal_sum
      by (intro conjI ag ag(5)[symmetric])
  qed
qed


theorem C5_dry_run_witness:
  "fst (cleanupOldOptionsData exact db_three now_ex [''SPX'', ''QQQ''] (1 / 2) True) = Inr dry_result_ex
   \<and> tbl (snd (cleanupOldOptionsData exact db_three now_ex [''SPX'', ''QQQ''] (1 / 2) True))
        = tbl db_three
   \<and> length (tbl db_three) = 3
   \<and> (\<exists>e. e \<in> set (results dry_result_ex) \<and> e_symbol e = ''SPX''
            \<and> action e = ''would_delete'' \<and> oldRecords e = Some 2
            \<and> would_delete_of e = int (length (stale_of db_three (cutoff_time exact now_ex (1 / 2)) ''SPX''))
            \<and> keptRecords e = totalRecords e - would_delete_of e
            \<and> keptRecords e = 1)"
proof -
  let ?e = "\<lparr> e_symbol = ''SPX'', totalRecords = 3, oldRecords = Some 2,
              deletedRecords = None, keptRecords = 1,
              oldestTimestamp = Some 0, newestTimestamp = Some 6600000,
              action = ''would_delete'' \<rparr>"
  have h: "fst (cleanupOldOptionsData exact db_three now_ex [''SPX'', ''QQQ''] (1 / 2) True)
             = Inr dry_result_ex"
    by (simp add: dry_run_ex)
  have m: "?e \<in> set (results dry_result_ex)" by (simp add: dry_result_ex_def)
  note c = C5_dry_run[of exact db_three now_ex "[''SPX'', ''QQQ'']" "1 / 2" dry_result_ex]
  from c have t: "tbl (snd (cleanupOldOptionsData exact db_three now_ex [''SPX'', ''QQQ''] (1 / 2) True))
        = tbl db_three" by (rule conjunct1)
  from c h have "\<forall>e\<in>set (results dry_result_ex).
            (action e = ''would_delete'' \<or> action e = ''no_action'')
          \<and> (action e = ''would_delete'' \<longleftrightarrow>
                stale_of db_three (cutoff_time exact now_ex (1 / 2)) (e_symbol e) \<noteq> [])
          \<and> totalRecords e = int (length (rows_of db_three (e_symbol e)))
          \<and> would_delete_of e
                = int (length (stale_of db_three (cutoff_time exact now_ex (1 / 2)) (e_symbol e)))
          \<and> keptRecords e = totalRecords e - would_delete_of e"
    by blast
  from bspec[OF this m]
  have w: "would_delete_of ?e = int (length (stale_of db_three (cutoff_time exact now_ex (1 / 2)) ''SPX''))"
    and k: "keptRecords ?e = totalRecords ?e - would_delete_of ?e"
    by simp_all
  have l: "length (tbl db_three) = 3" by (simp add: db_three_def)
  have "e_symbol ?e = ''SPX'' \<and> action ?e = ''would_delete'' \<and> oldRecords ?e = Some 2
        \<and> keptRecords ?e = 1" by simp
  with m w k have "\<exists>e. e \<in> set (results dry_result_ex) \<and> e_symbol e = ''SPX''
            \<and> action e = ''would_delete'' \<and> oldRecords e = Some 2
            \<and> would_delete_of e = int (length (stale_of db_three (cutoff_time exact now_ex (1 / 2)) ''SPX''))
            \<and> keptRecords e = totalRecords e - would_delete_of e
            \<and> keptRecords e = 1"
    by (intro exI[of _ ?e]) simp
  with h t l show ?thesis by simp
qed

section \<open>Callers of the cleanup: properties\<close>

text \<open>
  The handlers of \<^verbatim>\<open>/api/cleanup-options\<close> reject a non-positive
  \<^verbatim>\<open>keepHours\<close> before any call of the database; the \<^verbatim>\<open>GET\<close>
  handler reads a zero as a missing parameter and cleans with the default.
\<close>

lemma cleanup_options_POST_rejects:
  "k \<le> 0 \<Longrightarrow>
   cleanup_options_POST rnd d now True symbols (Some k) dry_arg
     = (Status400 ''keepHours must be a positive number'', d)"
  by (simp add: cleanup_options_POST_def)

lemma cleanup_options_GET_rejects:
  "k < 0 \<Longrightarrow>
   cleanup_options_GET rnd d now True symbols (Fin k) dry
     = (Status400 ''keepHours must be a positive number'', d)"
  by (simp add: cleanup_options_GET_def)

lemma cleanup_options_GET_zero:
  "cleanup_options_GET rnd d now True symbols (Fin 0) dry = cleanup_dispatch rnd d now symbols (1 / 2) dry"
  by (simp add: cleanup_options_GET_def)

text \<open>
  Claim C6 fails on the code. \<^verbatim>\<open>cleanupOldOptionsData\<close> does not look at the sign
  of \<^verbatim>\<open>keepHours\<close>, and the cleanup step of \<^verbatim>\<open>/api/collect-options\<close>
  passes the value of the body to it unchecked: with \<^verbatim>\<open>keepHours = -1\<close> the cutoff
  lies an hour after \<open>now\<close>, the run succeeds and every row of the symbol is deleted.
\<close>

theorem C6_negative_keep_hours_runs:
  "cleanupOldOptionsData exact db_three now_ex [''SPX''] (- 1) False =
     (Inr \<lparr> success = True, dryRun = False, cutoffTime = Some 10800000,
            keepHours = Some (- 1), symbolsProcessed = 1, totalDeleted = 3,
            results = [\<lparr> e_symbol = ''SPX'', totalRecords = 3, oldRecords = None,
                         deletedRecords = Some 3, keptRecords = 0,
                         oldestTimestamp = Some 0, newestTimestamp = Some 6600000,
                         action = ''deleted'' \<rparr>] \<rparr>,
      \<lparr> tbl = [], seq = 3 \<rparr>)
   \<and> snd (collect_cleanup_step exact db_three now_ex [''$SPX.X''] (- 1) True True)
        = \<lparr> tbl = [], seq = 3 \<rparr>
   \<and> length (tbl db_three) = 3"
proof -
  have n: "map normalize_symbol [''$SPX.X''] = [''SPX'']"
    by (simp add: normalize_symbol_def)
  have run: "cleanupOldOptionsData exact db_three now_ex [''SPX''] (- 1) False =
     (Inr \<lparr> success = True, dryRun = False, cutoffTime = Some 10800000,
            keepHours = Some (- 1), symbolsProcessed = 1, totalDeleted = 3,
            results = [\<lparr> e_symbol = ''SPX'', totalRecords = 3, oldRecords = None,
                         deletedRecords = Some 3, keptRecords = 0,
                         oldestTimestamp = Some 0, newestTimestamp = Some 6600000,
                         action = ''deleted'' \<rparr>] \<rparr>,
      \<lparr> tbl = [], seq = 3 \<rparr>)"
    by (simp add: cleanup_defs cleanup_example_defs)
  have step: "snd (collect_cleanup_step exact db_three now_ex [''$SPX.X''] (- 1) True True)
        = \<lparr> tbl = [], seq = 3 \<rparr>"
    unfolding collect_cleanup_step_def n run by simp
  have "length (tbl db_three) = 3" by (simp add: db_three_def)
  with run step show ?thesis by (intro conjI)
qed

section \<open>Queries: properties\<close>

lemma strike_key_le: "strike_key a \<le> strike_key b \<longleftrightarrow> strike_le a b"
  by (cases a; cases b) auto

lemma latest_key_le:
  "(- timestamp a, expiration_date a, strike_key (strike a))
     \<le> (- timestamp b, expiration_date b, strike_key (strike b))
   \<longleftrightarrow> latest_order a b"
  unfolding latest_order_def strike_key_le[symmetric] by auto

lemma sorted_latest:
  "sorted_wrt latest_order
     (sort_key (\<lambda>r. (- timestamp r, expiration_date r, strike_key (strike r))) xs)"
proof -
  have "sorted (map (\<lambda>r. (- timestamp r, expiration_date r, strike_key (strike r)))
          (sort_key (\<lambda>r. (- timestamp r, expiration_date r, strike_key (strike r))) xs))"
    by (rule sorted_sort_key)
  then show ?thesis
    unfolding sorted_map latest_key_le .
qed

text \<open>
  Claim C7. For a limit \<open>n \<ge> 0\<close>, the rows returned for a symbol are the first
  \<open>n\<close> of an arrangement of all stored rows of that symbol in the order "latest
  timestamp first, then expiration date, then strike" (all of them when there are fewer
  than \<open>n\<close>); a call without limit is the call with limit 100, and limit 0 returns the
  empty sequence.
\<close>

theorem C7_latest:
  assumes "0 \<le> n"
  shows "\<exists>rows rest.
           getLatestOptionsData d s (Some n) = Inr rows
         \<and> mset (rows @ rest) = mset (filter (\<lambda>r. symbol r = s) (tbl d))
         \<and> sorted_wrt latest_order (rows @ rest)
         \<and> length rows = min (nat n) (length (filter (\<lambda>r. symbol r = s) (tbl d)))
         \<and> getLatestOptionsData d s None = getLatestOptionsData d s (Some 100)
         \<and> getLatestOptionsData d s (Some 0) = Inr []"
proof -
  let ?all = "sort_key (\<lambda>r. (- timestamp r, expiration_date r, strike_key (strike r)))
                (filter (\<lambda>r. symbol r = s) (tbl d))"
  have run: "getLatestOptionsData d s (Some n) = Inr (take (nat n) ?all)"
    using assms by (simp add: getLatestOptionsData_def)
  have m: "mset (take (nat n) ?all @ drop (nat n) ?all)
             = mset (filter (\<lambda>r. symbol r = s) (tbl d))"
    by simp
  have so: "sorted_wrt latest_order (take (nat n) ?all @ drop (nat n) ?all)"
    using sorted_latest[of "filter (\<lambda>r. symbol r = s) (tbl d)"] by simp
  have le: "length (take (nat n) ?all)
              = min (nat n) (length (filter (\<lambda>r. symbol r = s) (tbl d)))"
    by (simp add: min.commute)
  have df: "getLatestOptionsData d s None = getLatestOptionsData d s (Some 100)"
    by (simp add: getLatestOptionsData_def)
  have z: "getLatestOptionsData d s (Some 0) = Inr []"
    by (simp add: getLatestOptionsData_def)
  from run m so le df z show ?thesis by blast
qed

theorem C7_latest_witness:
  "(0::int) \<le> 2
   \<and> getLatestOptionsData db_three ''SPX'' (Some 2)
       = Inr [row_at 3 ''SPX'' 6600000 (Some (Fin 7)), row_at 2 ''SPX'' 4800000 (Some (Fin 5))]
   \<and> (\<exists>rows rest. getLatestOptionsData db_three ''SPX'' (Some 2) = Inr rows
         \<and> sorted_wrt latest_order (rows @ rest) \<and> length rows = 2)
   \<and> getLatestOptionsData db_three ''SPX'' (Some 0) = Inr []"
proof -
  have h: "(0::int) \<le> 2" by simp
  have l: "min (nat 2) (length (filter (\<lambda>r. symbol r = ''SPX'') (tbl db_three))) = 2"
    by (simp add: cleanup_example_defs)
  have run: "getLatestOptionsData db_three ''SPX'' (Some 2)
       = Inr [row_at 3 ''SPX'' 6600000 (Some (Fin 7)), row_at 2 ''SPX'' 4800000 (Some (Fin 5))]"
    by (simp add: getLatestOptionsData_def cleanup_example_defs)
  from C7_latest[OF h, of db_three "''SPX''"] obtain rows rest where
    a: "getLatestOptionsData db_three ''SPX'' (Some 2) = Inr rows"
    and b: "sorted_wrt latest_order (rows @ rest)"
    and c: "length rows = min (nat 2) (length (filter (\<lambda>r. symbol r = ''SPX'') (tbl db_three)))"
    and z: "getLatestOptionsData db_three ''SPX'' (Some 0) = Inr []"
    by blast
  from a b c l have "\<exists>rows rest. getLatestOptionsData db_three ''SPX'' (Some 2) = Inr rows
         \<and> sorted_wrt latest_order (rows @ rest) \<and> length rows = 2"
    by auto
  with h run z show ?thesis by simp
qed

text \<open>
  The handlers never pass a zero limit to the query: they read it as a missing parameter.
\<close>

lemma options_data_GET_zero_limit:
  "options_data_GET d authorized symbol_param (Some 0)
     = options_data_GET d authorized symbol_param (Some 100)"
proof -
  have "handler_limit (Some 0) = handler_limit (Some 100)"
    by (simp add: handler_limit_def)
  then show ?thesis
    unfolding options_data_GET_def by (simp only:)
qed

lemma group_keys_set:
  "set (group_keys rs) = (\<lambda>r. (expiration_date r, strike r)) ` set rs"
  by (simp add: group_keys_def)

lemma agg_columns_key:
  "g_expiration_date (agg_columns g grp) = fst g" "g_strike (agg_columns g grp) = snd g"
  by (simp_all add: agg_columns_def)

lemma group_rows_contributing:
  "group_rows (filter (\<lambda>r. P r \<and> a \<le> expiration_date r \<and> expiration_date r \<le> b
                           \<and> mid r \<noteq> None) xs) g
     = contributing (filter P xs) a b g"
  unfolding group_rows_def contributing_def filter_filter
  by (rule filter_cong) auto

lemma aggregated_eq:
  "getAggregatedOptionsData d s a b =
     map (\<lambda>g. agg_columns g (contributing (rows_of d s) a b g))
       (group_keys (filter (\<lambda>r. symbol r = s \<and> a \<le> expiration_date r
                                \<and> expiration_date r \<le> b \<and> mid r \<noteq> None) (tbl d)))"
  unfolding getAggregatedOptionsData_def Let_def rows_of_def group_rows_contributing ..

lemma aggregated_multi_eq:
  "symbols \<noteq> [] \<Longrightarrow>
   getAggregatedOptionsDataMultiSymbol d symbols a b =
     Inr (map (\<lambda>g. (agg_columns g (contributing (filter (\<lambda>r. symbol r \<in> set symbols) (tbl d)) a b g),
                    string_agg_distinct (map symbol
                      (contributing (filter (\<lambda>r. symbol r \<in> set symbols) (tbl d)) a b g))))
       (group_keys (filter (\<lambda>r. symbol r \<in> set symbols \<and> a \<le> expiration_date r
                                \<and> expiration_date r \<le> b \<and> mid r \<noteq> None) (tbl d))))"
  unfolding getAggregatedOptionsDataMultiSymbol_def Let_def group_rows_contributing by simp

lemma filter_not_null_absorb:
  "filter (\<lambda>r. P r \<and> a \<le> expiration_date r \<and> expiration_date r \<le> b \<and> mid r \<noteq> None)
     (filter (\<lambda>r. mid r \<noteq> None) xs)
   = filter (\<lambda>r. P r \<and> a \<le> expiration_date r \<and> expiration_date r \<le> b \<and> mid r \<noteq> None) xs"
  unfolding filter_filter by (rule filter_cong) auto

lemma aggregated_without_null:
  "getAggregatedOptionsData (d\<lparr>tbl := filter (\<lambda>r. mid r \<noteq> None) (tbl d)\<rparr>) s a b
     = getAggregatedOptionsData d s a b"
proof -
  have t: "tbl (d\<lparr>tbl := filter (\<lambda>r. mid r \<noteq> None) (tbl d)\<rparr>)
             = filter (\<lambda>r. mid r \<noteq> None) (tbl d)" by simp
  show ?thesis
    unfolding getAggregatedOptionsData_def t filter_not_null_absorb ..
qed

lemma aggregated_multi_without_null:
  "getAggregatedOptionsDataMultiSymbol (d\<lparr>tbl := filter (\<lambda>r. mid r \<noteq> None) (tbl d)\<rparr>) symbols a b
     = getAggregatedOptionsDataMultiSymbol d symbols a b"
proof -
  have t: "tbl (d\<lparr>tbl := filter (\<lambda>r. mid r \<noteq> None) (tbl d)\<rparr>)
             = filter (\<lambda>r. mid r \<noteq> None) (tbl d)" by simp
  show ?thesis
    unfolding getAggregatedOptionsDataMultiSymbol_def t filter_not_null_absorb ..
qed

lemma sql_count_filter:
  "sql_count (map (\<lambda>r. if P r then Some (1::int) else None) xs) = int (length (filter P xs))"
  by (induction xs) (simp_all add: sql_count_def List.map_filter_def)

lemma contributing_no_null: "\<forall>r\<in>set (contributing rs a b g). mid r \<noteq> None"
  by (simp add: contributing_def)


text \<open>
  Claim C8. Both aggregating queries return what they return on the table without its
  rows of null mid price. Each row of the single-symbol result is the select list over the
  rows of its group that have a mid price, of which there is at least one: its sums and its
  three counts are taken over these rows only, so a row without mid price neither counts
  nor adds a zero.
\<close>

theorem C8_null_mid_excluded:
  "getAggregatedOptionsData (d\<lparr>tbl := filter (\<lambda>r. mid r \<noteq> None) (tbl d)\<rparr>) s a b
     = getAggregatedOptionsData d s a b
   \<and> getAggregatedOptionsDataMultiSymbol
        (d\<lparr>tbl := filter (\<lambda>r. mid r \<noteq> None) (tbl d)\<rparr>) symbols a b
     = getAggregatedOptionsDataMultiSymbol d symbols a b
   \<and> (\<forall>g\<in>set (getAggregatedOptionsData d s a b).
         g = agg_columns (g_expiration_date g, g_strike g)
               (contributing (rows_of d s) a b (g_expiration_date g, g_strike g))
       \<and> contributing (rows_of d s) a b (g_expiration_date g, g_strike g) \<noteq> []
       \<and> option_count g
           = int (length (contributing (rows_of d s) a b (g_expiration_date g, g_strike g)))
       \<and> total_mid_price g
           = sql_sum (map mid (contributing (rows_of d s) a b (g_expiration_date g, g_strike g)))
       \<and> call_count g
           = int (length (filter (\<lambda>r. option_type r = ''Call'')
                   (contributing (rows_of d s) a b (g_expiration_date g, g_strike g))))
       \<and> put_count g
           = int (length (filter (\<lambda>r. option_type r = ''Put'')
                   (contributing (rows_of d s) a b (g_expiration_date g, g_strike g)))))"
proof (intro conjI ballI)
  show "getAggregatedOptionsData (d\<lparr>tbl := filter (\<lambda>r. mid r \<noteq> None) (tbl d)\<rparr>) s a b
     = getAggregatedOptionsData d s a b"
    by (rule aggregated_without_null)
  show "getAggregatedOptionsDataMultiSymbol
        (d\<lparr>tbl := filter (\<lambda>r. mid r \<noteq> None) (tbl d)\<rparr>) symbols a b
     = getAggregatedOptionsDataMultiSymbol d symbols a b"
    by (rule aggregated_multi_without_null)
next
  fix g assume "g \<in> set (getAggregatedOptionsData d s a b)"
  then obtain k where k: "k \<in> set (group_keys (filter (\<lambda>r. symbol r = s \<and> a \<le> expiration_date r
                                \<and> expiration_date r \<le> b \<and> mid r \<noteq> None) (tbl d)))"
    and g: "g = agg_columns k (contributing (rows_of d s) a b k)"
    unfolding aggregated_eq by auto
  have key: "(g_expiration_date g, g_strike g) = k"
    unfolding g by (simp add: agg_columns_key)
  from k obtain r where r: "r \<in> set (tbl d)" "symbol r = s" "a \<le> expiration_date r"
    "expiration_date r \<le> b" "mid r \<noteq> None" "k = (expiration_date r, strike r)"
    unfolding group_keys_set by auto
  then have "r \<in> set (contributing (rows_of d s) a b k)"
    by (simp add: contributing_def rows_of_def)
  then have ne: "contributing (rows_of d s) a b k \<noteq> []" by auto
  show "g = agg_columns (g_expiration_date g, g_strike g)
               (contributing (rows_of d s) a b (g_expiration_date g, g_strike g))"
    unfolding key by (rule g)
  show "contributing (rows_of d s) a b (g_expiration_date g, g_strike g) \<noteq> []"
    unfolding key by (rule ne)
  show "option_count g
           = int (length (contributing (rows_of d s) a b (g_expiration_date g, g_strike g)))"
    unfolding key by (simp add: g agg_columns_def)
  show "total_mid_price g
           = sql_sum (map mid (contributing (rows_of d s) a b (g_expiration_date g, g_strike g)))"
    unfolding key by (simp add: g agg_columns_def)
  show "call_count g
           = int (length (filter (\<lambda>r. option_type r = ''Call'')
                   (contributing (rows_of d s) a b (g_expiration_date g, g_strike g))))"
    unfolding key by (simp add: g agg_columns_def sql_count_filter)
  show "put_count g
           = int (length (filter (\<lambda>r. option_type r = ''Put'')
                   (contributing (rows_of d s) a b (g_expiration_date g, g_strike g))))"
    unfolding key by (simp add: g agg_columns_def sql_count_filter)
qed


theorem C8_null_mid_excluded_witness:
  "getAggregatedOptionsData db_null_mid ''SPX'' 0 10000 =
     [\<lparr> g_expiration_date = 9000, g_strike = Fin 100,
         call_mid_price = Some (Fin 5), put_mid_price = Some (Fin 0),
         total_mid_price = Some (Fin 5),
         option_count = 1, call_count = 1, put_count = 0 \<rparr>]
   \<and> length (tbl db_null_mid) = 2
   \<and> contributing (rows_of db_null_mid ''SPX'') 0 10000 (9000, Fin 100)
       = [row_at 2 ''SPX'' 1000 (Some (Fin 5))]
   \<and> (\<exists>g. g \<in> set (getAggregatedOptionsData db_null_mid ''SPX'' 0 10000)
          \<and> option_count g
              = int (length (contributing (rows_of db_null_mid ''SPX'') 0 10000
                       (g_expiration_date g, g_strike g)))
          \<and> option_count g = 1 \<and> total_mid_price g = Some (Fin 5))"
proof -
  let ?g = "\<lparr> g_expiration_date = 9000, g_strike = Fin 100,
         call_mid_price = Some (Fin 5), put_mid_price = Some (Fin 0),
         total_mid_price = Some (Fin 5),
         option_count = 1, call_count = 1, put_count = 0 \<rparr>"
  have run: "getAggregatedOptionsData db_null_mid ''SPX'' 0 10000 = [?g]"
    by (simp add: getAggregatedOptionsData_def group_keys_def group_rows_def agg_columns_def
        sql_sum_def sql_count_def List.map_filter_def db_null_mid_def row_at_def Let_def)
  have l: "length (tbl db_null_mid) = 2" by (simp add: db_null_mid_def)
  have c: "contributing (rows_of db_null_mid ''SPX'') 0 10000 (9000, Fin 100)
       = [row_at 2 ''SPX'' 1000 (Some (Fin 5))]"
    by (simp add: contributing_def rows_of_def db_null_mid_def row_at_def)
  have m: "?g \<in> set (getAggregatedOptionsData db_null_mid ''SPX'' 0 10000)"
    unfolding run by simp
  from C8_null_mid_excluded[of db_null_mid "''SPX''" 0 10000 "[''SPX'']"]
  have "\<forall>g\<in>set (getAggregatedOptionsData db_null_mid ''SPX'' 0 10000).
          option_count g
              = int (length (contributing (rows_of db_null_mid ''SPX'') 0 10000
                       (g_expiration_date g, g_strike g)))"
    by blast
  from bspec[OF this m]
  have "option_count ?g
              = int (length (contributing (rows_of db_null_mid ''SPX'') 0 10000
                       (g_expiration_date ?g, g_strike ?g)))" .
  with m have "\<exists>g. g \<in> set (getAggregatedOptionsData db_null_mid ''SPX'' 0 10000)
          \<and> option_count g
              = int (length (contributing (rows_of db_null_mid ''SPX'') 0 10000
                       (g_expiration_date g, g_strike g)))
          \<and> option_count g = 1 \<and> total_mid_price g = Some (Fin 5)"
    by (intro exI[of _ ?g]) simp
  with run l c show ?thesis by simp
qed

end
